theory Spec2Isabelle
  imports Main "HOL-Library.Word"
begin

unbundle bit_operations_syntax

section \<open>Bytes, buffers and strings\<close>

text \<open>
  A \<^verbatim>\<open>Uint8Array\<close> or \<^verbatim>\<open>Buffer\<close> is a list of bytes. A JavaScript string is
  a sequence of UTF-16 code units.
\<close>

type_synonym byte = "8 word"
type_synonym jsstring = "16 word list"

section \<open>helpers.ts: the varint reader\<close>

text \<open>
  \<^verbatim>\<open>readVarint\<close> keeps \<^verbatim>\<open>result\<close> as the outcome of \<^verbatim>\<open>|=\<close>, which is a signed
  32-bit integer in JavaScript, and \<^verbatim>\<open><<\<close> takes its shift count modulo 32.
  The accumulator is therefore a \<open>32 word\<close>, read back with \<open>sint\<close>. The loop
  leaves by \<^verbatim>\<open>break\<close> (the index is not advanced) or by its guard.
\<close>

record varint =
  "value" :: int
  nextOffset :: nat

function readVarint_loop :: "byte list \<Rightarrow> 32 word \<Rightarrow> nat \<Rightarrow> nat \<Rightarrow> 32 word \<times> nat" where
  "readVarint_loop buffer result index shift =
     (if index < length buffer \<and> index < 8 then
        let byte = buffer ! index;
            result' = result OR push_bit (shift mod 32) (ucast (byte AND 0x7f))
        in if byte < 0x80 then (result', index)
           else readVarint_loop buffer result' (index + 1) (shift + 7)
      else (result, index))"
  by pat_completeness auto
termination
  by (relation "measure (\<lambda>(buffer, result, index, shift). 8 - index)") auto

declare readVarint_loop.simps [simp del]

definition readVarint :: "byte list \<Rightarrow> varint" where
  "readVarint buffer =
     (case readVarint_loop buffer 0 0 0 of
        (result, index) \<Rightarrow> \<lparr>value = sint result, nextOffset = index + 1\<rparr>)"

section \<open>helpers.ts: serial types\<close>

text \<open>
  Serial types reach \<^verbatim>\<open>getSerialTypeSize\<close> from \<^verbatim>\<open>readVarint\<close>, so they are
  integers. Both divisions are guarded by the parity test and are exact.
\<close>

definition getSerialTypeSize :: "int \<Rightarrow> int" where
  "getSerialTypeSize serialType =
     (if serialType = 0 then 0
      else if serialType = 1 then 1
      else if serialType = 2 then 2
      else if serialType = 3 then 3
      else if serialType = 4 then 4
      else if serialType = 5 then 6
      else if serialType = 6 then 8
      else if serialType = 7 then 8
      else if serialType = 8 \<or> serialType = 9 then 0
      else if serialType \<ge> 12 \<and> serialType mod 2 = 0 then (serialType - 12) div 2
      else if serialType \<ge> 13 \<and> serialType mod 2 = 1 then (serialType - 13) div 2
      else 0)"

section \<open>Errors and the runtime library\<close>

text \<open>
  Every exception the code can meet is a \<^verbatim>\<open>RangeError\<close>: thrown by a
  \<^verbatim>\<open>DataView\<close> getter or a \<^verbatim>\<open>Buffer\<close> reader whose bytes are not all inside
  the buffer, or by \<^verbatim>\<open>getCellPointerArray\<close> itself. A computation that may throw
  returns \<open>error + 'a\<close>, and \<open>andThen\<close> sequences two of them.
\<close>

datatype error = RangeError

definition andThen :: "error + 'a \<Rightarrow> ('a \<Rightarrow> error + 'b) \<Rightarrow> error + 'b" where
  "andThen r f = (case r of Inl e \<Rightarrow> Inl e | Inr v \<Rightarrow> f v)"

text \<open>
  Two functions of the JavaScript runtime are not part of the repository and are taken
  as parameters: the UTF-8 decoder behind \<^verbatim>\<open>buffer.toString("utf-8")\<close> and the
  printing of an IEEE double (given by its 64 bits) behind
  \<^verbatim>\<open>buffer.readDoubleBE(0).toString()\<close>.
\<close>

record runtime =
  toString_utf8 :: "byte list \<Rightarrow> jsstring"
  double_toString :: "64 word \<Rightarrow> jsstring"

text \<open>
  A concrete runtime for evaluating examples: its decoder maps every byte to the code
  unit of the same number, which is what UTF-8 decoding does to ASCII text, and no
  example reaches the printing of a double.
\<close>

definition ascii_runtime :: runtime where
  "ascii_runtime = \<lparr>toString_utf8 = map ucast, double_toString = (\<lambda>bits. [])\<rparr>"

text \<open>A string literal of the source, as code units.\<close>

definition js :: "string \<Rightarrow> jsstring" where
  "js s = map (of_nat \<circ> of_char) s"

section \<open>Buffer operations\<close>

text \<open>
  \<^verbatim>\<open>subarray(start, end)\<close> counts a negative index from the end and clamps both
  indices to the buffer; it never throws.
\<close>

definition relative_index :: "int \<Rightarrow> nat \<Rightarrow> nat" where
  "relative_index i len =
     (if i < 0 then (if i + int len > 0 then nat (i + int len) else 0)
      else if i < int len then nat i else len)"

definition subarray :: "byte list \<Rightarrow> int \<Rightarrow> int \<Rightarrow> byte list" where
  "subarray buffer start fin =
     (let s = relative_index start (length buffer);
          e = relative_index fin (length buffer)
      in if e > s then take (e - s) (drop s buffer) else [])"

definition subarray_from :: "byte list \<Rightarrow> int \<Rightarrow> byte list" where
  "subarray_from buffer start = drop (relative_index start (length buffer)) buffer"

text \<open>Big-endian values of a byte sequence, unsigned and two's complement.\<close>

definition be_uint :: "byte list \<Rightarrow> nat" where
  "be_uint bytes = foldl (\<lambda>acc b. acc * 256 + unat b) 0 bytes"

definition be_sint :: "byte list \<Rightarrow> int" where
  "be_sint bytes =
     (let u = int (be_uint bytes); w = 8 * length bytes
      in if u \<ge> 2 ^ (w - 1) then u - 2 ^ w else u)"

text \<open>
  \<^verbatim>\<open>readInt8\<close>, \<^verbatim>\<open>readInt16BE\<close>, \<^verbatim>\<open>readInt32BE\<close>, \<^verbatim>\<open>readBigInt64BE\<close> and
  \<^verbatim>\<open>readIntBE(offset, byteLength)\<close> differ in the width only; each throws when
  the buffer ends before the last byte.
\<close>

definition readIntBE :: "byte list \<Rightarrow> nat \<Rightarrow> nat \<Rightarrow> error + int" where
  "readIntBE buffer offset byteLength =
     (if offset + byteLength \<le> length buffer
      then Inr (be_sint (take byteLength (drop offset buffer)))
      else Inl RangeError)"

definition readDoubleBE :: "byte list \<Rightarrow> nat \<Rightarrow> error + 64 word" where
  "readDoubleBE buffer offset =
     (if offset + 8 \<le> length buffer
      then Inr (of_nat (be_uint (take 8 (drop offset buffer))))
      else Inl RangeError)"

text \<open>Printing an integer in decimal, as \<^verbatim>\<open>toString()\<close> does.\<close>

function digits :: "nat \<Rightarrow> jsstring" where
  "digits n = (if n < 10 then [of_nat (48 + n)] else digits (n div 10) @ [of_nat (48 + n mod 10)])"
  by pat_completeness auto
termination
  by (relation "measure id") auto

declare digits.simps [simp del]

definition int_toString :: "int \<Rightarrow> jsstring" where
  "int_toString i = (if i < 0 then 0x2D # digits (nat (- i)) else digits (nat i))"

text \<open>\<^verbatim>\<open>buffer.toString("hex")\<close>: two lower-case digits for each byte.\<close>

definition hex_digit :: "nat \<Rightarrow> 16 word" where
  "hex_digit d = (if d < 10 then of_nat (48 + d) else of_nat (87 + d))"

definition toString_hex :: "byte list \<Rightarrow> jsstring" where
  "toString_hex buffer = concat (map (\<lambda>b. [hex_digit (unat b div 16), hex_digit (unat b mod 16)]) buffer)"

section \<open>helpers.ts: values, payloads and cells\<close>

definition parseSerialTypeValue :: "runtime \<Rightarrow> byte list \<Rightarrow> int \<Rightarrow> int \<Rightarrow> error + jsstring" where
  "parseSerialTypeValue rt buffer targetSerialType ident =
     (if targetSerialType \<ge> 13 \<and> targetSerialType mod 2 = 1 then Inr (toString_utf8 rt buffer)
      else if targetSerialType \<ge> 12 \<and> targetSerialType mod 2 = 0 then Inr (toString_hex buffer)
      else if targetSerialType = 1 then andThen (readIntBE buffer 0 1) (\<lambda>n. Inr (int_toString n))
      else if targetSerialType = 2 then andThen (readIntBE buffer 0 2) (\<lambda>n. Inr (int_toString n))
      else if targetSerialType = 3 then andThen (readIntBE buffer 0 3) (\<lambda>n. Inr (int_toString n))
      else if targetSerialType = 4 then andThen (readIntBE buffer 0 4) (\<lambda>n. Inr (int_toString n))
      else if targetSerialType = 5 then andThen (readIntBE buffer 0 6) (\<lambda>n. Inr (int_toString n))
      else if targetSerialType = 6 then andThen (readIntBE buffer 0 8) (\<lambda>n. Inr (int_toString n))
      else if targetSerialType = 7 then andThen (readDoubleBE buffer 0) (\<lambda>d. Inr (double_toString rt d))
      else if targetSerialType = 8 \<or> targetSerialType = 9 then Inr (js ''0'')
      else Inr (int_toString ident))"

text \<open>
  The header loop of \<^verbatim>\<open>parseCellPayload\<close> runs while \<^verbatim>\<open>headerRemainingBytes > 0\<close>;
  nothing in its text bounds it, so it is a partial function and \<open>None\<close> stands for a
  loop that does not return.
\<close>

partial_function (option) serialTypes_loop ::
  "byte list \<Rightarrow> int \<Rightarrow> int \<Rightarrow> int list \<Rightarrow> (int list \<times> int) option" where
  "serialTypes_loop buffer offset headerRemainingBytes serialTypes =
     (if headerRemainingBytes > 0 then
        let v = readVarint (subarray_from buffer offset);
            serialType = value v;
            serialTypeBytes = int (nextOffset v)
        in serialTypes_loop buffer (offset + serialTypeBytes)
             (headerRemainingBytes - serialTypeBytes) (serialTypes @ [serialType])
      else Some (serialTypes, offset))"

declare serialTypes_loop.simps [code]

fun values_loop ::
  "runtime \<Rightarrow> byte list \<Rightarrow> int \<Rightarrow> int \<Rightarrow> int list \<Rightarrow> jsstring list \<Rightarrow> error + jsstring list" where
  "values_loop rt buffer offset rowId [] data = Inr data"
| "values_loop rt buffer offset rowId (serialType # rest) data =
     (let columnSize = getSerialTypeSize serialType
      in case parseSerialTypeValue rt (subarray buffer offset (offset + columnSize)) serialType rowId of
           Inl e \<Rightarrow> Inl e
         | Inr v \<Rightarrow> values_loop rt buffer (offset + columnSize) rowId rest (data @ [v]))"

definition parseCellPayload ::
  "runtime \<Rightarrow> byte list \<Rightarrow> int \<Rightarrow> int \<Rightarrow> (error + jsstring list) option" where
  "parseCellPayload rt buffer offset rowId =
     (let header = readVarint (subarray_from buffer offset);
          headerSize = value header;
          headerSizeBytes = int (nextOffset header)
      in case serialTypes_loop buffer (offset + headerSizeBytes) (headerSize - headerSizeBytes) [] of
           None \<Rightarrow> None
         | Some (serialTypes, offset') \<Rightarrow> Some (values_loop rt buffer offset' rowId serialTypes []))"

definition parseTableLeafCell :: "runtime \<Rightarrow> byte list \<Rightarrow> (error + jsstring list) option" where
  "parseTableLeafCell rt buffer =
     (let payloadSizeBytes = int (nextOffset (readVarint (subarray_from buffer 0)));
          row = readVarint (subarray_from buffer payloadSizeBytes)
      in parseCellPayload rt buffer (payloadSizeBytes + int (nextOffset row)) (value row))"

section \<open>DatabaseFileParser.ts: reading the file\<close>

text \<open>
  The file behind the \<^verbatim>\<open>FileHandle\<close> is the list of its bytes.
  \<^verbatim>\<open>getBufferFromOffset\<close> allocates a zero-filled array of \<^verbatim>\<open>bufferSize\<close>
  bytes and asks the handle to fill it from position \<^verbatim>\<open>offset\<close>; the number of
  bytes read is not looked at, so where the file ends early the rest stays zero.
\<close>

definition getBufferFromOffset :: "byte list \<Rightarrow> nat \<Rightarrow> nat \<Rightarrow> byte list" where
  "getBufferFromOffset file bufferSize offset =
     (let bytesRead = take bufferSize (drop offset file)
      in bytesRead @ replicate (bufferSize - length bytesRead) 0)"

text \<open>
  The \<^verbatim>\<open>DataView\<close> getters, big-endian, over a view of the whole buffer. Each throws
  a \<^verbatim>\<open>RangeError\<close> when the bytes it needs are not all inside the view.
\<close>

definition getUint8 :: "byte list \<Rightarrow> nat \<Rightarrow> error + nat" where
  "getUint8 view byteOffset =
     (if byteOffset + 1 \<le> length view then Inr (unat (view ! byteOffset)) else Inl RangeError)"

definition getInt8 :: "byte list \<Rightarrow> nat \<Rightarrow> error + int" where
  "getInt8 view byteOffset =
     (if byteOffset + 1 \<le> length view then Inr (sint (view ! byteOffset)) else Inl RangeError)"

definition getUint16 :: "byte list \<Rightarrow> nat \<Rightarrow> error + nat" where
  "getUint16 view byteOffset =
     (if byteOffset + 2 \<le> length view
      then Inr (be_uint (take 2 (drop byteOffset view))) else Inl RangeError)"

definition getUint32 :: "byte list \<Rightarrow> nat \<Rightarrow> error + nat" where
  "getUint32 view byteOffset =
     (if byteOffset + 4 \<le> length view
      then Inr (be_uint (take 4 (drop byteOffset view))) else Inl RangeError)"

text \<open>\<^verbatim>\<open>slice(start, end)\<close> of a typed array, for indices that are not negative.\<close>

definition slice :: "byte list \<Rightarrow> nat \<Rightarrow> nat \<Rightarrow> byte list" where
  "slice buffer start fin = take (fin - start) (drop start buffer)"

text \<open>\<^verbatim>\<open>String.fromCharCode\<close>: one code unit for each number.\<close>

definition fromCharCode :: "byte list \<Rightarrow> jsstring" where
  "fromCharCode codes = map ucast codes"

section \<open>DatabaseFileParser.ts: the data model\<close>

record DatabaseInfo =
  pageSize :: nat
  pageCount :: nat
  numberOfTables :: nat
  tableNames :: "jsstring option list"

text \<open>
  \<^verbatim>\<open>tableNames\<close> is declared \<^verbatim>\<open>string[]\<close>, but its elements come from indexing
  an array, which gives \<^verbatim>\<open>undefined\<close> past the end: \<open>None\<close> here.
\<close>

record DatabaseFileHeader =
  header_string :: jsstring
  database_page_size :: nat
  file_format_write_version :: nat
  file_format_read_version :: nat
  reserved_space_at_end_of_each_page :: nat
  maximum_embedded_payload_fraction :: nat
  minimum_embedded_payload_fraction :: nat
  leaf_payload_fraction :: nat
  file_change_counter :: nat
  number_of_pages :: nat
  first_freeList_trunk_page :: nat
  total_freeList_pages :: nat
  schema_cookie :: nat
  schema_format_number :: nat
  default_page_cache_size :: nat
  largest_root_b_tree_page_number :: nat
  database_text_encoding :: nat
  user_version :: nat
  incremental_vacuum_mode :: nat
  application_ID :: nat
  reserved_for_expansion :: "byte list"
  version_valid_for_number :: nat
  sqlite_version_number :: nat

definition interior_index_b_tree_page :: nat where "interior_index_b_tree_page = 0x02"
definition interior_table_b_tree_page :: nat where "interior_table_b_tree_page = 0x05"
definition leaf_index_b_tree_page :: nat where "leaf_index_b_tree_page = 0x0a"
definition leaf_table_b_tree_page :: nat where "leaf_table_b_tree_page = 0x0d"

record BTreePageHeaderInfo =
  number_of_tables :: nat
  b_tree_page_type :: nat
  start_of_first_freeBlock :: nat
  number_of_cells :: nat
  start_of_cell_content_area :: nat
  number_of_fragmented_free_bytes :: nat
  right_most_pointer :: int
  headerSize :: nat

datatype PageCellData = schemaType | schemaName | schemaTableName | schemaRootPage | schema

fun PageCellData_index :: "PageCellData \<Rightarrow> nat" where
  "PageCellData_index schemaType = 0"
| "PageCellData_index schemaName = 1"
| "PageCellData_index schemaTableName = 2"
| "PageCellData_index schemaRootPage = 3"
| "PageCellData_index schema = 4"

definition maxByteSize :: nat where
  "maxByteSize = 100"

section \<open>DatabaseFileParser.ts: the parser\<close>

definition parseDatabaseFileHeader :: "byte list \<Rightarrow> error + DatabaseFileHeader" where
  "parseDatabaseFileHeader file =
     (let databaseFileHeaderBuffer = getBufferFromOffset file maxByteSize 0;
          databaseFileHeaderData = databaseFileHeaderBuffer
      in andThen (getUint16 databaseFileHeaderData 16) (\<lambda>f16.
         andThen (getUint8 databaseFileHeaderData 18) (\<lambda>f18.
         andThen (getUint8 databaseFileHeaderData 19) (\<lambda>f19.
         andThen (getUint8 databaseFileHeaderData 20) (\<lambda>f20.
         andThen (getUint8 databaseFileHeaderData 21) (\<lambda>f21.
         andThen (getUint8 databaseFileHeaderData 22) (\<lambda>f22.
         andThen (getUint8 databaseFileHeaderData 23) (\<lambda>f23.
         andThen (getUint32 databaseFileHeaderData 24) (\<lambda>f24.
         andThen (getUint32 databaseFileHeaderData 28) (\<lambda>f28.
         andThen (getUint32 databaseFileHeaderData 32) (\<lambda>f32.
         andThen (getUint32 databaseFileHeaderData 36) (\<lambda>f36.
         andThen (getUint32 databaseFileHeaderData 40) (\<lambda>f40.
         andThen (getUint32 databaseFileHeaderData 44) (\<lambda>f44.
         andThen (getUint32 databaseFileHeaderData 48) (\<lambda>f48.
         andThen (getUint32 databaseFileHeaderData 52) (\<lambda>f52.
         andThen (getUint32 databaseFileHeaderData 56) (\<lambda>f56.
         andThen (getUint32 databaseFileHeaderData 60) (\<lambda>f60.
         andThen (getUint32 databaseFileHeaderData 64) (\<lambda>f64.
         andThen (getUint32 databaseFileHeaderData 68) (\<lambda>f68.
         andThen (getUint32 databaseFileHeaderData 92) (\<lambda>f92.
         andThen (getUint32 databaseFileHeaderData 96) (\<lambda>f96.
         Inr \<lparr>header_string = fromCharCode (slice databaseFileHeaderBuffer 0 16),
              database_page_size = f16,
              file_format_write_version = f18,
              file_format_read_version = f19,
              reserved_space_at_end_of_each_page = f20,
              maximum_embedded_payload_fraction = f21,
              minimum_embedded_payload_fraction = f22,
              leaf_payload_fraction = f23,
              file_change_counter = f24,
              number_of_pages = f28,
              first_freeList_trunk_page = f32,
              total_freeList_pages = f36,
              schema_cookie = f40,
              schema_format_number = f44,
              default_page_cache_size = f48,
              largest_root_b_tree_page_number = f52,
              database_text_encoding = f56,
              user_version = f60,
              incremental_vacuum_mode = f64,
              application_ID = f68,
              reserved_for_expansion = slice databaseFileHeaderBuffer 72 92,
              version_valid_for_number = f92,
              sqlite_version_number = f96\<rparr>))))))))))))))))))))))"

text \<open>
  In \<^verbatim>\<open>parsePageHeader\<close> the header size is 8 when the byte at 0 is the leaf-table
  type, or else when the signed byte at 8 is the leaf-index type; \<^verbatim>\<open>||\<close> reads the
  second byte only when the first test fails.
\<close>

definition parsePageHeader :: "byte list \<Rightarrow> nat \<Rightarrow> error + BTreePageHeaderInfo" where
  "parsePageHeader file offset =
     (let pageHeaderBuffer = getBufferFromOffset file 12 offset;
          pageHeaderData = pageHeaderBuffer
      in andThen (getUint8 pageHeaderData 0) (\<lambda>t0.
         andThen (if t0 = leaf_table_b_tree_page then Inr True
                  else andThen (getInt8 pageHeaderData 8) (\<lambda>t8. Inr (t8 = int leaf_index_b_tree_page))) (\<lambda>leaf.
         let pagerHeaderSize = (if leaf then 8 else 12)
         in andThen (getUint16 pageHeaderData 3) (\<lambda>tables.
            andThen (getUint8 pageHeaderData 0) (\<lambda>pageType.
            andThen (getUint16 pageHeaderData 1) (\<lambda>freeBlock.
            andThen (getUint16 pageHeaderData 3) (\<lambda>cells.
            andThen (getUint16 pageHeaderData 5) (\<lambda>contentArea.
            andThen (getUint8 pageHeaderData 7) (\<lambda>fragmented.
            andThen (getUint32 pageHeaderData 8) (\<lambda>rightMost.
            Inr \<lparr>number_of_tables = tables,
                 b_tree_page_type = pageType,
                 start_of_first_freeBlock = freeBlock,
                 number_of_cells = cells,
                 start_of_cell_content_area = contentArea,
                 number_of_fragmented_free_bytes = fragmented,
                 right_most_pointer = int rightMost - 1,
                 headerSize = pagerHeaderSize\<rparr>))))))))))"

function cellPointer_loop :: "byte list \<Rightarrow> nat \<Rightarrow> nat \<Rightarrow> nat list \<Rightarrow> error + nat list" where
  "cellPointer_loop pointerBuffer cellCount c pointerArray =
     (if c < cellCount then
        let cellOffset = c * 2
        in if c * 2 + 2 \<le> length pointerBuffer then
             (case getUint16 pointerBuffer cellOffset of
                Inl e \<Rightarrow> Inl e
              | Inr pointer \<Rightarrow> cellPointer_loop pointerBuffer cellCount (c + 1) (pointerArray @ [pointer]))
           else Inl RangeError
      else Inr pointerArray)"
  by pat_completeness auto
termination
  by (relation "measure (\<lambda>(pointerBuffer, cellCount, c, pointerArray). cellCount - c)") auto

declare cellPointer_loop.simps [simp del]

definition getCellPointerArray :: "byte list \<Rightarrow> nat \<Rightarrow> error + nat list" where
  "getCellPointerArray file offset =
     andThen (parsePageHeader file offset) (\<lambda>header.
       let cellCount = number_of_cells header;
           pointerBuffer = getBufferFromOffset file (cellCount * 2) (offset + headerSize header)
       in cellPointer_loop pointerBuffer cellCount 0 [])"

text \<open>Indexing an array: \<^verbatim>\<open>undefined\<close> past its end.\<close>

definition element_at :: "'a list \<Rightarrow> nat \<Rightarrow> 'a option" where
  "element_at xs i = (if i < length xs then Some (xs ! i) else None)"

text \<open>
  \<^verbatim>\<open>getTableNames\<close> visits the cell pointers in order; an exception in one cell
  ends the whole call.
\<close>

fun tableNames_loop ::
  "runtime \<Rightarrow> byte list \<Rightarrow> nat list \<Rightarrow> jsstring option list \<Rightarrow> (error + jsstring option list) option" where
  "tableNames_loop rt pageBuffer [] names = Some (Inr names)"
| "tableNames_loop rt pageBuffer (cellPointer # rest) names =
     (case parseTableLeafCell rt (subarray_from pageBuffer (int cellPointer)) of
        None \<Rightarrow> None
      | Some (Inl e) \<Rightarrow> Some (Inl e)
      | Some (Inr columns) \<Rightarrow>
          tableNames_loop rt pageBuffer rest
            (names @ [element_at columns (PageCellData_index schemaTableName)]))"

definition getTableNames ::
  "runtime \<Rightarrow> byte list \<Rightarrow> nat list \<Rightarrow> (error + jsstring option list) option" where
  "getTableNames rt pageBuffer cellPointersArray = tableNames_loop rt pageBuffer cellPointersArray []"

definition parse :: "runtime \<Rightarrow> byte list \<Rightarrow> (error + DatabaseInfo) option" where
  "parse rt file =
     (case parseDatabaseFileHeader file of
        Inl e \<Rightarrow> Some (Inl e)
      | Inr databaseFileHeader \<Rightarrow>
     (case parsePageHeader file maxByteSize of
        Inl e \<Rightarrow> Some (Inl e)
      | Inr databasePageHeader \<Rightarrow>
     (case getCellPointerArray file maxByteSize of
        Inl e \<Rightarrow> Some (Inl e)
      | Inr cellPointersArray \<Rightarrow>
     (let pageBuffer = getBufferFromOffset file (database_page_size databaseFileHeader) 0
      in case getTableNames rt pageBuffer cellPointersArray of
           None \<Rightarrow> None
         | Some (Inl e) \<Rightarrow> Some (Inl e)
         | Some (Inr names) \<Rightarrow>
             Some (Inr \<lparr>pageSize = database_page_size databaseFileHeader,
                        pageCount = number_of_pages databaseFileHeader,
                        numberOfTables = number_of_tables databasePageHeader,
                        tableNames = names\<rparr>)))))"

section \<open>The canonical varint encoding\<close>

text \<open>
  The encoder is not part of the repository. This one follows the words of the
  specification: the canonical SQLite grouping, seven bits to a byte, the most
  significant group first, the high bit set on every byte but the last. (It covers the
  values that need at most eight bytes.)
\<close>

function spec_encodeVarint_high :: "nat \<Rightarrow> byte list" where
  "spec_encodeVarint_high v =
     (if v < 128 then [of_nat v OR 0x80]
      else spec_encodeVarint_high (v div 128) @ [of_nat (v mod 128) OR 0x80])"
  by pat_completeness auto
termination
  by (relation "measure id") auto

declare spec_encodeVarint_high.simps [simp del]

definition spec_encodeVarint :: "nat \<Rightarrow> byte list" where
  "spec_encodeVarint v =
     (if v < 128 then [of_nat v]
      else spec_encodeVarint_high (v div 128) @ [of_nat (v mod 128)])"

section \<open>Synthetic database files\<close>

text \<open>
  A 100-byte file header: the magic string, the page size (two bytes at 16), the
  format versions and payload fractions, a change counter of 7, a page count of 1
  (four bytes at 28), and zeros.
\<close>

definition sqlite_header :: "byte \<Rightarrow> byte \<Rightarrow> byte list" where
  "sqlite_header pageSizeHigh pageSizeLow =
     [0x53, 0x51, 0x4c, 0x69, 0x74, 0x65, 0x20, 0x66, 0x6f, 0x72, 0x6d, 0x61, 0x74, 0x20, 0x33, 0x00,
      pageSizeHigh, pageSizeLow, 0x01, 0x01, 0x00, 0x40, 0x20, 0x20,
      0x00, 0x00, 0x00, 0x07, 0x00, 0x00, 0x00, 0x01]
     @ replicate 68 0"

text \<open>
  One page of 4096 bytes whose b-tree page is a table leaf with two cells. Each cell
  holds a payload size, a row id and a record of a single TEXT column (serial type 17,
  two bytes): \<^verbatim>\<open>t1\<close> in the first cell, \<^verbatim>\<open>t2\<close> in the second.
\<close>

definition single_column_db :: "byte list" where
  "single_column_db =
     sqlite_header 0x10 0x00
     @ [0x0d, 0x00, 0x00, 0x00, 0x02, 0x0f, 0xf4, 0x00]
     @ [0x0f, 0xfa, 0x0f, 0xf4]
     @ replicate 3972 0
     @ [0x04, 0x02, 0x02, 0x11, 0x74, 0x32]
     @ [0x04, 0x01, 0x02, 0x11, 0x74, 0x31]"

text \<open>
  The same page with the cells of a schema table: each record has the five columns
  \<^verbatim>\<open>type\<close>, \<^verbatim>\<open>name\<close>, \<^verbatim>\<open>tbl_name\<close>, \<^verbatim>\<open>rootpage\<close>, \<^verbatim>\<open>sql\<close>, here
  \<^verbatim>\<open>table, t1, t1, 2, CREATE TABLE t1(a)\<close> and the like for \<^verbatim>\<open>t2\<close>.
\<close>

definition schema_cell_t1 :: "byte list" where
  "schema_cell_t1 =
     [0x22, 0x01, 0x06, 0x17, 0x11, 0x11, 0x01, 0x31, 0x74, 0x61, 0x62, 0x6c, 0x65, 0x74, 0x31, 0x74,
      0x31, 0x02, 0x43, 0x52, 0x45, 0x41, 0x54, 0x45, 0x20, 0x54, 0x41, 0x42, 0x4c, 0x45, 0x20, 0x74,
      0x31, 0x28, 0x61, 0x29]"

definition schema_cell_t2 :: "byte list" where
  "schema_cell_t2 =
     [0x22, 0x02, 0x06, 0x17, 0x11, 0x11, 0x01, 0x31, 0x74, 0x61, 0x62, 0x6c, 0x65, 0x74, 0x32, 0x74,
      0x32, 0x03, 0x43, 0x52, 0x45, 0x41, 0x54, 0x45, 0x20, 0x54, 0x41, 0x42, 0x4c, 0x45, 0x20, 0x74,
      0x32, 0x28, 0x61, 0x29]"

definition schema_db :: "byte list" where
  "schema_db =
     sqlite_header 0x10 0x00
     @ [0x0d, 0x00, 0x00, 0x00, 0x02, 0x0f, 0xb8, 0x00]
     @ [0x0f, 0xdc, 0x0f, 0xb8]
     @ replicate 3912 0
     @ schema_cell_t2
     @ schema_cell_t1"

text \<open>A file that ends after the page size: the first 18 bytes of a header.\<close>

definition truncated_header :: "byte list" where
  "truncated_header = take 18 (sqlite_header 0x10 0x00)"

text \<open>
  A leaf-index page (type 10) with one cell, whose pointer array starts at byte 8 with
  the pointer 4080; and an interior-table page (type 5) whose right-most pointer, the
  four bytes at 8, is page \<^verbatim>\<open>0x0a000002\<close>. Both stand behind a file header.
\<close>

definition leaf_index_page_db :: "byte list" where
  "leaf_index_page_db =
     sqlite_header 0x10 0x00
     @ [0x0a, 0x00, 0x00, 0x00, 0x01, 0x0f, 0xf0, 0x00, 0x0f, 0xf0, 0x00, 0x00]
     @ replicate 3984 0"

definition interior_table_page_db :: "byte list" where
  "interior_table_page_db =
     sqlite_header 0x10 0x00
     @ [0x05, 0x00, 0x00, 0x00, 0x00, 0x10, 0x00, 0x00, 0x0a, 0x00, 0x00, 0x02]
     @ replicate 3984 0"

text \<open>
  An empty database with pages of 65536 bytes (page size field 1): the root page is a
  table leaf without cells, so its cell content area starts at 65536, stored as 0.
\<close>

definition empty_64k_db :: "byte list" where
  "empty_64k_db =
     sqlite_header 0x00 0x01
     @ [0x0d, 0x00, 0x00, 0x00, 0x00, 0x00, 0x00, 0x00]
     @ replicate 65428 0"

text \<open>
  One page of 512 bytes, a table leaf with one cell whose pointer, 768, lies beyond
  the page.
\<close>

definition stray_pointer_db :: "byte list" where
  "stray_pointer_db =
     sqlite_header 0x02 0x00
     @ [0x0d, 0x00, 0x00, 0x00, 0x01, 0x01, 0xf0, 0x00]
     @ [0x03, 0x00]
     @ replicate 402 0"

section \<open>Describing files, cells and columns\<close>

text \<open>
  The words in which the properties below speak about inputs. None of this is code of
  the repository.

  \<open>header_bytes file offset n\<close> are the \<open>n\<close> bytes at \<open>offset\<close> of the input filled
  up with zero bytes to 100 bytes.
\<close>

definition header_bytes :: "byte list \<Rightarrow> nat \<Rightarrow> nat \<Rightarrow> byte list" where
  "header_bytes file offset n = take n (drop offset (file @ replicate (100 - length file) 0))"

text \<open>
  A table-leaf cell all of whose varints take one byte: the payload size, the row id,
  the size of the record header (which counts its own byte and one byte for each serial
  type), the serial types, and then the columns.
\<close>

definition table_leaf_cell :: "byte \<Rightarrow> byte \<Rightarrow> byte list \<Rightarrow> byte list list \<Rightarrow> byte list" where
  "table_leaf_cell payloadSize rowId serialTypes columns =
     payloadSize # rowId # of_nat (length serialTypes + 1) # serialTypes @ concat columns"

text \<open>
  Such a cell is a schema cell with a given table name when every varint byte has its
  high bit clear, every column has the size of its serial type, and there are at least
  three columns of which the third (index 2) is TEXT and holds the bytes of the name.
\<close>

definition schema_cell :: "byte \<Rightarrow> byte \<Rightarrow> byte list \<Rightarrow> byte list list \<Rightarrow> byte list \<Rightarrow> bool" where
  "schema_cell payloadSize rowId serialTypes columns name \<longleftrightarrow>
     payloadSize < 0x80 \<and> rowId < 0x80
     \<and> length serialTypes < 127 \<and> list_all (\<lambda>t. t < 0x80) serialTypes
     \<and> list_all2 (\<lambda>t column. int (length column) = getSerialTypeSize (uint t)) serialTypes columns
     \<and> 2 < length serialTypes \<and> 13 \<le> serialTypes ! 2 \<and> odd (uint (serialTypes ! 2))
     \<and> columns ! 2 = name"

text \<open>The bytes of a cell stand in the file at a pointer.\<close>

definition cell_at :: "byte list \<Rightarrow> nat \<Rightarrow> byte list \<Rightarrow> bool" where
  "cell_at file pointer cell \<longleftrightarrow> take (length cell) (drop pointer file) = cell"

text \<open>
  A file of one page of 4096 bytes: its header declares the page size 4096 (two bytes
  at 16) and the page count 1 (four bytes at 28); the page header at 100 has the
  leaf-table type and counts 2 cells (two bytes at 103); the two cell pointers follow
  it at 108 and 110. All other bytes are free.
\<close>

definition one_page_two_cells :: "byte list \<Rightarrow> nat \<Rightarrow> nat \<Rightarrow> bool" where
  "one_page_two_cells file pointer1 pointer2 \<longleftrightarrow>
     length file = 4096
     \<and> take 2 (drop 16 file) = [0x10, 0x00]
     \<and> take 4 (drop 28 file) = [0x00, 0x00, 0x00, 0x01]
     \<and> file ! 100 = 0x0d
     \<and> take 2 (drop 103 file) = [0x00, 0x02]
     \<and> be_uint (take 2 (drop 108 file)) = pointer1
     \<and> be_uint (take 2 (drop 110 file)) = pointer2"

text \<open>The two schema cells of \<open>schema_db\<close>, taken apart.\<close>

definition schema_serialTypes :: "byte list" where
  "schema_serialTypes = [0x17, 0x11, 0x11, 0x01, 0x31]"

definition schema_columns_t1 :: "byte list list" where
  "schema_columns_t1 =
     [[0x74, 0x61, 0x62, 0x6c, 0x65], [0x74, 0x31], [0x74, 0x31], [0x02],
      [0x43, 0x52, 0x45, 0x41, 0x54, 0x45, 0x20, 0x54, 0x41, 0x42, 0x4c, 0x45, 0x20, 0x74, 0x31,
       0x28, 0x61, 0x29]]"

definition schema_columns_t2 :: "byte list list" where
  "schema_columns_t2 =
     [[0x74, 0x61, 0x62, 0x6c, 0x65], [0x74, 0x32], [0x74, 0x32], [0x03],
      [0x43, 0x52, 0x45, 0x41, 0x54, 0x45, 0x20, 0x54, 0x41, 0x42, 0x4c, 0x45, 0x20, 0x74, 0x32,
       0x28, 0x61, 0x29]]"

text \<open>
  What the value loop of \<^verbatim>\<open>parseCellPayload\<close> does in its round \<open>i\<close>: the column
  starts where the sizes of the earlier serial types have moved the offset, and its
  value is decoded from the slice of the size of its own serial type.
\<close>

definition column_offset :: "int \<Rightarrow> int list \<Rightarrow> nat \<Rightarrow> int" where
  "column_offset offset serialTypes i = offset + sum_list (map getSerialTypeSize (take i serialTypes))"

definition column_value ::
  "runtime \<Rightarrow> byte list \<Rightarrow> int \<Rightarrow> int \<Rightarrow> int list \<Rightarrow> nat \<Rightarrow> error + jsstring" where
  "column_value rt buffer offset rowId serialTypes i =
     parseSerialTypeValue rt
       (subarray buffer (column_offset offset serialTypes i)
          (column_offset offset serialTypes i + getSerialTypeSize (serialTypes ! i)))
       (serialTypes ! i) rowId"

text \<open>A payload with three columns, the 8-bit integers 5, 6 and 7.\<close>

definition three_columns :: "byte list" where
  "three_columns = [0x04, 0x01, 0x01, 0x01, 0x05, 0x06, 0x07]"

section \<open>Properties of the varint reader\<close>

text \<open>
  The loop only moves the index forward, and never beyond 8 or beyond the end of the
  buffer.
\<close>

lemma readVarint_loop_index:
  "readVarint_loop buffer result index shift = (result', index') \<Longrightarrow>
     index \<le> index' \<and> index' \<le> max index 8 \<and> index' \<le> max index (length buffer)"
proof (induction buffer result index shift arbitrary: result' index' rule: readVarint_loop.induct)
  case (1 buffer result index shift)
  show ?case
  proof (cases "index < length buffer \<and> index < 8")
    case True
    show ?thesis
    proof (cases "buffer ! index < 0x80")
      case True
      with \<open>index < length buffer \<and> index < 8\<close> "1.prems" show ?thesis
        by (simp add: readVarint_loop.simps [of buffer result index shift] Let_def)
    next
      case False
      with \<open>index < length buffer \<and> index < 8\<close> "1.prems"
      have "readVarint_loop buffer (result OR push_bit (shift mod 32) (ucast (buffer ! index AND 0x7f)))
              (index + 1) (shift + 7) = (result', index')"
        by (simp add: readVarint_loop.simps [of buffer result index shift] Let_def)
      from "1.IH" [OF True refl refl False this] True show ?thesis by auto
    qed
  next
    case False
    with "1.prems" show ?thesis
      by (simp add: readVarint_loop.simps [of buffer result index shift])
  qed
qed

lemma nextOffset_readVarint_bounds:
  "1 \<le> nextOffset (readVarint buffer) \<and> nextOffset (readVarint buffer) \<le> 9
     \<and> nextOffset (readVarint buffer) \<le> length buffer + 1"
proof -
  obtain r i where ri: "readVarint_loop buffer 0 0 0 = (r, i)"
    by (cases "readVarint_loop buffer 0 0 0")
  from readVarint_loop_index [OF ri] show ?thesis
    by (simp add: readVarint_def ri)
qed

lemma nextOffset_readVarint_ge_1: "1 \<le> nextOffset (readVarint buffer)"
  using nextOffset_readVarint_bounds [of buffer] by simp

lemma value_readVarint_bounds:
  "- (2 ^ 31) \<le> value (readVarint buffer) \<and> value (readVarint buffer) < 2 ^ 31"
proof -
  obtain r i where ri: "readVarint_loop buffer 0 0 0 = (r, i)"
    by (cases "readVarint_loop buffer 0 0 0")
  have "- (2 ^ 31) \<le> sint r" "sint r < 2 ^ 31"
    using sint_ge [of r] sint_lt [of r] by simp_all
  then show ?thesis by (simp add: readVarint_def ri)
qed

text \<open>Bytes from index 8 on are never looked at.\<close>

lemma readVarint_loop_take:
  "readVarint_loop (take 8 buffer) result index shift = readVarint_loop buffer result index shift"
proof (induction buffer result index shift rule: readVarint_loop.induct)
  case (1 buffer result index shift)
  show ?case
  proof (cases "index < length buffer \<and> index < 8")
    case True
    then have nth: "take 8 buffer ! index = buffer ! index" by simp
    show ?thesis
    proof (cases "buffer ! index < 0x80")
      case True
      with \<open>index < length buffer \<and> index < 8\<close> nth show ?thesis
        by (simp add: readVarint_loop.simps [of _ result index shift] Let_def)
    next
      case False
      from "1.IH" [OF True refl refl False] True False nth show ?thesis
        by (simp add: readVarint_loop.simps [of _ result index shift] Let_def)
    qed
  next
    case False
    then show ?thesis
      by (auto simp add: readVarint_loop.simps [of _ result index shift])
  qed
qed

text \<open>
  Claim C2, at the input where it fails. The canonical encoding of 128 is the two
  bytes \<^verbatim>\<open>0x81 0x00\<close>. \<^verbatim>\<open>readVarint\<close> shifts each later byte further to the left,
  so it puts the first group lowest and decodes these bytes to 1, not to 128; the
  count of bytes, 2, is right.
\<close>

theorem readVarint_canonical_128:
  "spec_encodeVarint 128 = [0x81, 0x00]
   \<and> readVarint (spec_encodeVarint 128) = \<lparr>value = 1, nextOffset = 2\<rparr>"
  by (simp add: spec_encodeVarint_def spec_encodeVarint_high.simps readVarint_def
      readVarint_loop.simps)

text \<open>
  Claim C4, as stated, fails: after eight bytes with the high bit set, a ninth byte
  \<^verbatim>\<open>0xff\<close> adds nothing to the value, though the count returned is 9.
\<close>

theorem readVarint_ninth_byte_ignored:
  "readVarint [0x80, 0x80, 0x80, 0x80, 0x80, 0x80, 0x80, 0x80, 0xff]
     = \<lparr>value = 0, nextOffset = 9\<rparr>"
  by (simp add: readVarint_def readVarint_loop.simps)

text \<open>
  Claim C4, amended: \<^verbatim>\<open>readVarint\<close> reads at most 8 bytes of its input slice. Its
  result is that of the first 8 bytes alone, so a ninth byte never contributes to the
  decoded value.
\<close>

theorem readVarint_first_eight_bytes:
  "readVarint buffer = readVarint (take 8 buffer)"
  by (simp add: readVarint_def readVarint_loop_take)

text \<open>
  Claim C5, as stated, fails: on the empty slice \<^verbatim>\<open>readVarint\<close> does not fail. The
  loop is not entered and the initial value 0 is returned, with a count of 1.
\<close>

theorem readVarint_empty:
  "readVarint [] = \<lparr>value = 0, nextOffset = 1\<rparr>"
  by (simp add: readVarint_def readVarint_loop.simps)

text \<open>
  Claim C5, amended: \<^verbatim>\<open>readVarint\<close> never fails, whether its input slice is empty
  or not. (The function has no statement that throws, and its only read of the buffer
  is guarded by the loop condition; so its model has no error result.) For every slice
  it returns a value that is a signed 32-bit integer and a consumed-byte count between
  1 and 9, which is at most one more than the length of the slice.
\<close>

theorem readVarint_never_fails:
  "- (2 ^ 31) \<le> value (readVarint buffer) \<and> value (readVarint buffer) < 2 ^ 31
   \<and> 1 \<le> nextOffset (readVarint buffer) \<and> nextOffset (readVarint buffer) \<le> 9
   \<and> nextOffset (readVarint buffer) \<le> length buffer + 1"
  using value_readVarint_bounds [of buffer] nextOffset_readVarint_bounds [of buffer]
  by simp

section \<open>Properties of the serial types\<close>

text \<open>
  Claim C6: the size of a serial type is the table of the specification. Codes 1 to 9
  have the sizes 1, 2, 3, 4, 6, 8, 8, 0, 0 and code 0 has size 0; an even code from 12
  on has size (code - 12) / 2 and an odd code from 13 on has size (code - 13) / 2, both
  divisions being exact; so the sizes of 12, 13, 14, 15 and 100 are 0, 0, 1, 1 and 44.
\<close>

theorem getSerialTypeSize_table:
  "map getSerialTypeSize [1, 2, 3, 4, 5, 6, 7, 8, 9] = [1, 2, 3, 4, 6, 8, 8, 0, 0]
   \<and> getSerialTypeSize 0 = 0
   \<and> (\<forall>code. code \<ge> 12 \<and> even code \<longrightarrow>
         getSerialTypeSize code = (code - 12) div 2 \<and> 2 * getSerialTypeSize code = code - 12)
   \<and> (\<forall>code. code \<ge> 13 \<and> odd code \<longrightarrow>
         getSerialTypeSize code = (code - 13) div 2 \<and> 2 * getSerialTypeSize code = code - 13)
   \<and> getSerialTypeSize 12 = 0 \<and> getSerialTypeSize 14 = 1 \<and> getSerialTypeSize 100 = 44
   \<and> getSerialTypeSize 13 = 0 \<and> getSerialTypeSize 15 = 1"
proof -
  have tab: "map getSerialTypeSize [1, 2, 3, 4, 5, 6, 7, 8, 9] = [1, 2, 3, 4, 6, 8, 8, 0, 0]"
    by (simp add: getSerialTypeSize_def)
  have ev: "getSerialTypeSize code = (code - 12) div 2 \<and> 2 * getSerialTypeSize code = code - 12"
    if "code \<ge> 12 \<and> even code" for code
  proof -
    from that have "code mod 2 = 0" by presburger
    with that show ?thesis by (simp add: getSerialTypeSize_def)
  qed
  have od: "getSerialTypeSize code = (code - 13) div 2 \<and> 2 * getSerialTypeSize code = code - 13"
    if "code \<ge> 13 \<and> odd code" for code
  proof -
    from that have m: "code mod 2 = 1" by presburger
    from that have e: "even (code - 13)" by simp
    from that m e show ?thesis by (simp add: getSerialTypeSize_def)
  qed
  have pts: "getSerialTypeSize 0 = 0" "getSerialTypeSize 12 = 0" "getSerialTypeSize 14 = 1"
    "getSerialTypeSize 100 = 44" "getSerialTypeSize 13 = 0" "getSerialTypeSize 15 = 1"
    by (simp_all add: getSerialTypeSize_def)
  from tab ev od pts show ?thesis by blast
qed

theorem getSerialTypeSize_table_witness:
  "(100::int) \<ge> 12 \<and> even (100::int) \<and> getSerialTypeSize 100 = (100 - 12) div 2
   \<and> (15::int) \<ge> 13 \<and> odd (15::int) \<and> getSerialTypeSize 15 = (15 - 13) div 2"
  using getSerialTypeSize_table by simp

section \<open>Termination of the payload decoder\<close>

text \<open>
  The header loop returns from every state: each round takes at least one byte off
  \<^verbatim>\<open>headerRemainingBytes\<close>, and it collects at most that many serial types.
\<close>

lemma serialTypes_loop_returns:
  "\<exists>collected offset'.
      serialTypes_loop buffer offset headerRemainingBytes serialTypes = Some (serialTypes @ collected, offset')
      \<and> int (length collected) \<le> max 0 headerRemainingBytes"
proof (induction "nat headerRemainingBytes" arbitrary: headerRemainingBytes offset serialTypes
    rule: less_induct)
  case less
  show ?case
  proof (cases "headerRemainingBytes > 0")
    case False
    then show ?thesis
      by (simp add: serialTypes_loop.simps [of buffer offset headerRemainingBytes serialTypes])
  next
    case True
    define v where "v = readVarint (subarray_from buffer offset)"
    have n: "1 \<le> nextOffset v"
      unfolding v_def by (rule nextOffset_readVarint_ge_1)
    with True have "nat (headerRemainingBytes - int (nextOffset v)) < nat headerRemainingBytes"
      by linarith
    from less [OF this, of "offset + int (nextOffset v)" "serialTypes @ [value v]"]
    obtain collected offset' where
      rec: "serialTypes_loop buffer (offset + int (nextOffset v))
              (headerRemainingBytes - int (nextOffset v)) (serialTypes @ [value v])
            = Some ((serialTypes @ [value v]) @ collected, offset')"
      and len: "int (length collected) \<le> max 0 (headerRemainingBytes - int (nextOffset v))"
      by blast
    from True rec have
      "serialTypes_loop buffer offset headerRemainingBytes serialTypes
         = Some (serialTypes @ (value v # collected), offset')"
      by (simp add: serialTypes_loop.simps [of buffer offset headerRemainingBytes serialTypes]
          Let_def v_def)
    moreover from len n True have "int (length (value v # collected)) \<le> max 0 headerRemainingBytes"
      by simp
    ultimately show ?thesis by blast
  qed
qed

text \<open>
  The value loop decodes the columns in order. When it returns a list, the list has one
  value for each serial type, the value of that column; when it throws, some column
  throws and every column before it has a value.
\<close>

lemma column_value_0:
  "column_value rt buffer offset rowId (t # ts) 0
     = parseSerialTypeValue rt (subarray buffer offset (offset + getSerialTypeSize t)) t rowId"
  by (simp add: column_value_def column_offset_def)

lemma column_value_Suc:
  "column_value rt buffer offset rowId (t # ts) (Suc i)
     = column_value rt buffer (offset + getSerialTypeSize t) rowId ts i"
  by (simp add: column_value_def column_offset_def add.assoc)

lemma values_loop_Inr:
  "values_loop rt buffer offset rowId serialTypes data = Inr out \<Longrightarrow>
     \<exists>vals. out = data @ vals \<and> length vals = length serialTypes
       \<and> (\<forall>i < length serialTypes. column_value rt buffer offset rowId serialTypes i = Inr (vals ! i))"
proof (induction serialTypes arbitrary: offset data)
  case Nil
  then show ?case by simp
next
  case (Cons t ts)
  from Cons.prems obtain v where
    v: "parseSerialTypeValue rt (subarray buffer offset (offset + getSerialTypeSize t)) t rowId = Inr v"
    and rest: "values_loop rt buffer (offset + getSerialTypeSize t) rowId ts (data @ [v]) = Inr out"
    by (auto simp add: Let_def split: sum.splits)
  from Cons.IH [OF rest] obtain vals where
    out: "out = (data @ [v]) @ vals" and len: "length vals = length ts"
    and each: "\<forall>i < length ts.
        column_value rt buffer (offset + getSerialTypeSize t) rowId ts i = Inr (vals ! i)"
    by blast
  have "\<forall>i < length (t # ts). column_value rt buffer offset rowId (t # ts) i = Inr ((v # vals) ! i)"
  proof (intro allI impI)
    fix i assume "i < length (t # ts)"
    then show "column_value rt buffer offset rowId (t # ts) i = Inr ((v # vals) ! i)"
      using v each by (cases i) (simp_all add: column_value_0 column_value_Suc)
  qed
  with out len show ?case
    by (intro exI [of _ "v # vals"]) simp
qed

lemma values_loop_Inl:
  "values_loop rt buffer offset rowId serialTypes data = Inl e \<Longrightarrow>
     \<exists>i < length serialTypes. column_value rt buffer offset rowId serialTypes i = Inl e
       \<and> (\<forall>j < i. \<exists>v. column_value rt buffer offset rowId serialTypes j = Inr v)"
proof (induction serialTypes arbitrary: offset data)
  case Nil
  then show ?case by simp
next
  case (Cons t ts)
  show ?case
  proof (cases "parseSerialTypeValue rt (subarray buffer offset (offset + getSerialTypeSize t)) t rowId")
    case (Inl e')
    with Cons.prems have "e' = e" by (simp add: Let_def)
    with Inl have "column_value rt buffer offset rowId (t # ts) 0 = Inl e"
      by (simp add: column_value_0)
    then show ?thesis by (intro exI [of _ 0]) simp
  next
    case (Inr v)
    with Cons.prems have
      "values_loop rt buffer (offset + getSerialTypeSize t) rowId ts (data @ [v]) = Inl e"
      by (simp add: Let_def)
    from Cons.IH [OF this] obtain i where
      i: "i < length ts"
      and fails: "column_value rt buffer (offset + getSerialTypeSize t) rowId ts i = Inl e"
      and before: "\<forall>j < i. \<exists>v. column_value rt buffer (offset + getSerialTypeSize t) rowId ts j = Inr v"
      by blast
    have "\<forall>j < Suc i. \<exists>v. column_value rt buffer offset rowId (t # ts) j = Inr v"
    proof (intro allI impI)
      fix j assume "j < Suc i"
      then show "\<exists>v. column_value rt buffer offset rowId (t # ts) j = Inr v"
        using Inr before by (cases j) (simp_all add: column_value_0 column_value_Suc)
    qed
    with i fails show ?thesis
      by (intro exI [of _ "Suc i"]) (simp add: column_value_Suc)
  qed
qed

text \<open>
  Claim C10: \<^verbatim>\<open>parseCellPayload\<close> terminates for every buffer and offset. Every
  varint read reports a consumed-byte count of at least 1; so the header loop, from any
  offset and any number of remaining header bytes, returns, having collected no more
  serial types than there were remaining bytes. \<^verbatim>\<open>parseCellPayload\<close> returns what the
  value loop makes of the serial types that the header loop collected after the
  header-size varint: the value loop runs once for each of them, in order, so that it
  either returns one value for each collected serial type, the value of that column,
  or ends with the exception of the first column that throws.
\<close>

theorem parseCellPayload_terminates:
  "(\<forall>bytes. 1 \<le> nextOffset (readVarint bytes))
   \<and> (\<exists>serialTypes offset'.
         serialTypes_loop buffer offset headerRemainingBytes [] = Some (serialTypes, offset')
         \<and> int (length serialTypes) \<le> max 0 headerRemainingBytes)
   \<and> (\<exists>serialTypes offset'.
         serialTypes_loop buffer
           (offset + int (nextOffset (readVarint (subarray_from buffer offset))))
           (value (readVarint (subarray_from buffer offset))
              - int (nextOffset (readVarint (subarray_from buffer offset)))) []
           = Some (serialTypes, offset')
         \<and> parseCellPayload rt buffer offset rowId
             = Some (values_loop rt buffer offset' rowId serialTypes [])
         \<and> (\<forall>data. values_loop rt buffer offset' rowId serialTypes [] = Inr data \<longrightarrow>
               length data = length serialTypes
               \<and> (\<forall>i < length serialTypes.
                     column_value rt buffer offset' rowId serialTypes i = Inr (data ! i)))
         \<and> (\<forall>e. values_loop rt buffer offset' rowId serialTypes [] = Inl e \<longrightarrow>
               (\<exists>i < length serialTypes.
                  column_value rt buffer offset' rowId serialTypes i = Inl e
                  \<and> (\<forall>j < i. \<exists>v. column_value rt buffer offset' rowId serialTypes j = Inr v))))"
proof (intro conjI)
  show "\<forall>bytes. 1 \<le> nextOffset (readVarint bytes)"
    using nextOffset_readVarint_ge_1 by blast
  show "\<exists>serialTypes offset'.
         serialTypes_loop buffer offset headerRemainingBytes [] = Some (serialTypes, offset')
         \<and> int (length serialTypes) \<le> max 0 headerRemainingBytes"
    using serialTypes_loop_returns [of buffer offset headerRemainingBytes "[]"] by simp
  define header where "header = readVarint (subarray_from buffer offset)"
  obtain serialTypes offset' where
    loop: "serialTypes_loop buffer (offset + int (nextOffset header))
             (value header - int (nextOffset header)) [] = Some (serialTypes, offset')"
    using serialTypes_loop_returns [of buffer "offset + int (nextOffset header)"
        "value header - int (nextOffset header)" "[]"] by auto
  then have payload: "parseCellPayload rt buffer offset rowId
               = Some (values_loop rt buffer offset' rowId serialTypes [])"
    by (simp add: parseCellPayload_def Let_def header_def)
  have ok: "\<forall>data. values_loop rt buffer offset' rowId serialTypes [] = Inr data \<longrightarrow>
               length data = length serialTypes
               \<and> (\<forall>i < length serialTypes.
                     column_value rt buffer offset' rowId serialTypes i = Inr (data ! i))"
    using values_loop_Inr [of rt buffer offset' rowId serialTypes "[]"] by auto
  have throws: "\<forall>e. values_loop rt buffer offset' rowId serialTypes [] = Inl e \<longrightarrow>
               (\<exists>i < length serialTypes.
                  column_value rt buffer offset' rowId serialTypes i = Inl e
                  \<and> (\<forall>j < i. \<exists>v. column_value rt buffer offset' rowId serialTypes j = Inr v))"
    using values_loop_Inl [of rt buffer offset' rowId serialTypes "[]"] by blast
  from loop payload ok throws
  show "\<exists>serialTypes offset'.
         serialTypes_loop buffer
           (offset + int (nextOffset (readVarint (subarray_from buffer offset))))
           (value (readVarint (subarray_from buffer offset))
              - int (nextOffset (readVarint (subarray_from buffer offset)))) []
           = Some (serialTypes, offset')
         \<and> parseCellPayload rt buffer offset rowId
             = Some (values_loop rt buffer offset' rowId serialTypes [])
         \<and> (\<forall>data. values_loop rt buffer offset' rowId serialTypes [] = Inr data \<longrightarrow>
               length data = length serialTypes
               \<and> (\<forall>i < length serialTypes.
                     column_value rt buffer offset' rowId serialTypes i = Inr (data ! i)))
         \<and> (\<forall>e. values_loop rt buffer offset' rowId serialTypes [] = Inl e \<longrightarrow>
               (\<exists>i < length serialTypes.
                  column_value rt buffer offset' rowId serialTypes i = Inl e
                  \<and> (\<forall>j < i. \<exists>v. column_value rt buffer offset' rowId serialTypes j = Inr v)))"
    unfolding header_def by blast
qed

text \<open>A payload of three columns: three rounds of the header loop, three values.\<close>

lemma three_columns_varint:
  "readVarint (subarray_from three_columns 0) = \<lparr>value = 4, nextOffset = 1\<rparr>"
  by (simp add: three_columns_def subarray_from_def relative_index_def readVarint_def
      readVarint_loop.simps)

lemma three_columns_serialTypes:
  "serialTypes_loop three_columns 1 3 [] = Some ([1, 1, 1], 4)"
  by (simp add: three_columns_def serialTypes_loop.simps readVarint_def readVarint_loop.simps
      subarray_from_def relative_index_def Let_def)

lemma three_columns_payload:
  "parseCellPayload ascii_runtime three_columns 0 (- 99999)
     = Some (Inr [js ''5'', js ''6'', js ''7''])"
  by (simp add: parseCellPayload_def three_columns_varint three_columns_serialTypes)
     (simp add: three_columns_def getSerialTypeSize_def subarray_def relative_index_def parseSerialTypeValue_def
        andThen_def readIntBE_def be_sint_def be_uint_def int_toString_def digits.simps js_def Let_def)

theorem parseCellPayload_terminates_witness:
  "serialTypes_loop three_columns 1 3 [] = Some ([1, 1, 1], 4)
   \<and> parseCellPayload ascii_runtime three_columns 0 (- 99999)
       = Some (Inr [js ''5'', js ''6'', js ''7''])
   \<and> values_loop ascii_runtime three_columns 4 (- 99999) [1, 1, 1] []
       = Inr [js ''5'', js ''6'', js ''7'']
   \<and> length [js ''5'', js ''6'', js ''7''] = length [1, 1, 1 :: int]
   \<and> column_value ascii_runtime three_columns 4 (- 99999) [1, 1, 1] 2
       = Inr (js ''7'')"
proof -
  from parseCellPayload_terminates [of three_columns 0 0 ascii_runtime "- 99999"]
  obtain serialTypes offset' where
    loop: "serialTypes_loop three_columns
           (0 + int (nextOffset (readVarint (subarray_from three_columns 0))))
           (value (readVarint (subarray_from three_columns 0))
              - int (nextOffset (readVarint (subarray_from three_columns 0)))) []
           = Some (serialTypes, offset')"
    and ret: "parseCellPayload ascii_runtime three_columns 0 (- 99999)
       = Some (values_loop ascii_runtime three_columns offset' (- 99999) serialTypes [])"
    and ok: "\<forall>data. values_loop ascii_runtime three_columns offset' (- 99999) serialTypes [] = Inr data \<longrightarrow>
               length data = length serialTypes
               \<and> (\<forall>i < length serialTypes.
                     column_value ascii_runtime three_columns offset' (- 99999) serialTypes i = Inr (data ! i))"
    by blast
  from loop have st: "serialTypes = [1, 1, 1]" and off: "offset' = 4"
    by (simp_all add: three_columns_varint three_columns_serialTypes)
  from ret have val: "values_loop ascii_runtime three_columns 4 (- 99999) [1, 1, 1] []
                        = Inr [js ''5'', js ''6'', js ''7'']"
    by (simp add: three_columns_payload st off)
  with ok have "length [js ''5'', js ''6'', js ''7''] = length [1, 1, 1 :: int]"
    and "column_value ascii_runtime three_columns 4 (- 99999) [1, 1, 1] 2 = Inr ([js ''5'', js ''6'', js ''7''] ! 2)"
    unfolding st off by auto
  with val three_columns_serialTypes three_columns_payload show ?thesis
    by simp
qed

section \<open>Evaluating the parser on the synthetic files\<close>

lemma length_sqlite_header: "length (sqlite_header a b) = 100"
  by (simp add: sqlite_header_def)

lemma be_uint_shift:
  "foldl (\<lambda>acc b. acc * 256 + unat b) a (replicate n (0::byte)) = a * 256 ^ n"
  by (induction n arbitrary: a) simp_all

lemmas getters = getUint8_def getInt8_def getUint16_def getUint32_def be_uint_def andThen_def
  be_uint_shift Let_def

text \<open>What \<^verbatim>\<open>parse\<close> takes from the file header of the synthetic files.\<close>

lemma header_fields:
  "\<exists>header. parseDatabaseFileHeader (sqlite_header a b @ rest) = Inr header
     \<and> database_page_size header = 256 * unat a + unat b \<and> number_of_pages header = 1"
  by (simp add: parseDatabaseFileHeader_def maxByteSize_def getBufferFromOffset_def
      length_sqlite_header getters) (simp add: sqlite_header_def)

text \<open>Cells are evaluated by unfolding the definitions of the helpers.\<close>

lemmas cell_defs = parseTableLeafCell_def parseCellPayload_def readVarint_def readVarint_loop.simps
  subarray_from_def subarray_def relative_index_def serialTypes_loop.simps getSerialTypeSize_def
  parseSerialTypeValue_def andThen_def readIntBE_def be_sint_def be_uint_def int_toString_def
  digits.simps Let_def

lemma ascii_runtime_names:
  "toString_utf8 ascii_runtime [0x74, 0x31] = js ''t1''"
  "toString_utf8 ascii_runtime [0x74, 0x32] = js ''t2''"
  by (simp_all add: ascii_runtime_def js_def)

lemma parseTableLeafCell_empty: "parseTableLeafCell rt [] = Some (Inr [])"
  by (simp add: cell_defs)

lemma parseTableLeafCell_single_column:
  "parseTableLeafCell rt [0x04, 0x01, 0x02, 0x11, 0x74, 0x31] = Some (Inr [toString_utf8 rt [0x74, 0x31]])"
  "parseTableLeafCell rt [0x04, 0x02, 0x02, 0x11, 0x74, 0x32, 0x04, 0x01, 0x02, 0x11, 0x74, 0x31]
     = Some (Inr [toString_utf8 rt [0x74, 0x32]])"
  by (simp_all add: cell_defs)

text \<open>The two cells of the schema table, step by step: the varints in front, the serial
  types of the record header, the bytes of each column, and the values.\<close>

lemma schema_cell_varints:
  "readVarint (subarray_from schema_cell_t1 0) = \<lparr>value = 34, nextOffset = 1\<rparr>"
  "readVarint (subarray_from schema_cell_t1 1) = \<lparr>value = 1, nextOffset = 1\<rparr>"
  "readVarint (subarray_from schema_cell_t1 2) = \<lparr>value = 6, nextOffset = 1\<rparr>"
  "readVarint (subarray_from (schema_cell_t2 @ schema_cell_t1) 0) = \<lparr>value = 34, nextOffset = 1\<rparr>"
  "readVarint (subarray_from (schema_cell_t2 @ schema_cell_t1) 1) = \<lparr>value = 2, nextOffset = 1\<rparr>"
  "readVarint (subarray_from (schema_cell_t2 @ schema_cell_t1) 2) = \<lparr>value = 6, nextOffset = 1\<rparr>"
  by (simp_all add: schema_cell_t1_def schema_cell_t2_def readVarint_def readVarint_loop.simps
      subarray_from_def relative_index_def)

lemma schema_cell_serialTypes:
  "serialTypes_loop schema_cell_t1 3 5 [] = Some ([23, 17, 17, 1, 49], 8)"
  "serialTypes_loop (schema_cell_t2 @ schema_cell_t1) 3 5 [] = Some ([23, 17, 17, 1, 49], 8)"
  by (simp_all add: schema_cell_t1_def schema_cell_t2_def serialTypes_loop.simps readVarint_def
      readVarint_loop.simps subarray_from_def relative_index_def Let_def)

lemma schema_cell_columns:
  "subarray schema_cell_t1 8 13 = [0x74, 0x61, 0x62, 0x6c, 0x65]"
  "subarray schema_cell_t1 13 15 = [0x74, 0x31]"
  "subarray schema_cell_t1 15 17 = [0x74, 0x31]"
  "subarray schema_cell_t1 17 18 = [0x02]"
  "subarray schema_cell_t1 18 36 =
     [0x43, 0x52, 0x45, 0x41, 0x54, 0x45, 0x20, 0x54, 0x41, 0x42, 0x4c, 0x45, 0x20, 0x74, 0x31, 0x28, 0x61, 0x29]"
  "subarray (schema_cell_t2 @ schema_cell_t1) 8 13 = [0x74, 0x61, 0x62, 0x6c, 0x65]"
  "subarray (schema_cell_t2 @ schema_cell_t1) 13 15 = [0x74, 0x32]"
  "subarray (schema_cell_t2 @ schema_cell_t1) 15 17 = [0x74, 0x32]"
  "subarray (schema_cell_t2 @ schema_cell_t1) 17 18 = [0x03]"
  "subarray (schema_cell_t2 @ schema_cell_t1) 18 36 =
     [0x43, 0x52, 0x45, 0x41, 0x54, 0x45, 0x20, 0x54, 0x41, 0x42, 0x4c, 0x45, 0x20, 0x74, 0x32, 0x28, 0x61, 0x29]"
  by (simp_all add: schema_cell_t1_def schema_cell_t2_def subarray_def relative_index_def Let_def)

lemma schema_serialType_sizes:
  "getSerialTypeSize 23 = 5" "getSerialTypeSize 17 = 2" "getSerialTypeSize 1 = 1"
  "getSerialTypeSize 49 = 18"
  by (simp_all add: getSerialTypeSize_def)

lemma parseSerialTypeValue_text:
  "t \<ge> 13 \<Longrightarrow> t mod 2 = 1 \<Longrightarrow>
     parseSerialTypeValue rt bytes t rowId = Inr (toString_utf8 rt bytes)"
  by (simp add: parseSerialTypeValue_def)

lemma parseSerialTypeValue_rootpage:
  "parseSerialTypeValue rt [0x02] 1 rowId = Inr (js ''2'')"
  "parseSerialTypeValue rt [0x03] 1 rowId = Inr (js ''3'')"
  by (simp_all add: parseSerialTypeValue_def andThen_def readIntBE_def be_sint_def be_uint_def
      int_toString_def digits.simps Let_def js_def)

lemma parseTableLeafCell_schema:
  "parseTableLeafCell rt schema_cell_t1
     = Some (Inr [toString_utf8 rt [0x74, 0x61, 0x62, 0x6c, 0x65],
                  toString_utf8 rt [0x74, 0x31],
                  toString_utf8 rt [0x74, 0x31],
                  js ''2'',
                  toString_utf8 rt [0x43, 0x52, 0x45, 0x41, 0x54, 0x45, 0x20, 0x54, 0x41, 0x42,
                                    0x4c, 0x45, 0x20, 0x74, 0x31, 0x28, 0x61, 0x29]])"
  "parseTableLeafCell rt (schema_cell_t2 @ schema_cell_t1)
     = Some (Inr [toString_utf8 rt [0x74, 0x61, 0x62, 0x6c, 0x65],
                  toString_utf8 rt [0x74, 0x32],
                  toString_utf8 rt [0x74, 0x32],
                  js ''3'',
                  toString_utf8 rt [0x43, 0x52, 0x45, 0x41, 0x54, 0x45, 0x20, 0x54, 0x41, 0x42,
                                    0x4c, 0x45, 0x20, 0x74, 0x32, 0x28, 0x61, 0x29]])"
  by (simp_all add: parseTableLeafCell_def parseCellPayload_def schema_cell_varints
      schema_cell_serialTypes schema_serialType_sizes schema_cell_columns
      parseSerialTypeValue_text parseSerialTypeValue_rootpage)

section \<open>Properties of the header parsers\<close>

lemma length_getBufferFromOffset:
  "length (getBufferFromOffset file bufferSize offset) = bufferSize"
  by (simp add: getBufferFromOffset_def Let_def)

lemma getBufferFromOffset_pad:
  "getBufferFromOffset (file @ replicate (n - length file) 0) n 0 = getBufferFromOffset file n 0"
  by (cases "length file \<le> n") (simp_all add: getBufferFromOffset_def Let_def)

text \<open>
  The file header, field by field: each field is read from its bytes in the input
  filled up with zeros.
\<close>

lemma getBufferFromOffset_0:
  "getBufferFromOffset file n 0 = take n (file @ replicate (n - length file) 0)"
  by (simp add: getBufferFromOffset_def Let_def)

lemma header_bytes_of_buffer:
  "offset + n \<le> 100 \<Longrightarrow>
     take n (drop offset (getBufferFromOffset file 100 0)) = header_bytes file offset n"
  by (simp add: getBufferFromOffset_0 header_bytes_def drop_take min_def)

lemma header_bytes_of_buffer_0:
  "n \<le> 100 \<Longrightarrow> take n (getBufferFromOffset file 100 0) = header_bytes file 0 n"
  using header_bytes_of_buffer [of 0 n] by simp

lemma parseDatabaseFileHeader_eq:
  "parseDatabaseFileHeader file
     = Inr \<lparr>header_string = fromCharCode (header_bytes file 0 16),
            database_page_size = be_uint (header_bytes file 16 2),
            file_format_write_version = be_uint (header_bytes file 18 1),
            file_format_read_version = be_uint (header_bytes file 19 1),
            reserved_space_at_end_of_each_page = be_uint (header_bytes file 20 1),
            maximum_embedded_payload_fraction = be_uint (header_bytes file 21 1),
            minimum_embedded_payload_fraction = be_uint (header_bytes file 22 1),
            leaf_payload_fraction = be_uint (header_bytes file 23 1),
            file_change_counter = be_uint (header_bytes file 24 4),
            number_of_pages = be_uint (header_bytes file 28 4),
            first_freeList_trunk_page = be_uint (header_bytes file 32 4),
            total_freeList_pages = be_uint (header_bytes file 36 4),
            schema_cookie = be_uint (header_bytes file 40 4),
            schema_format_number = be_uint (header_bytes file 44 4),
            default_page_cache_size = be_uint (header_bytes file 48 4),
            largest_root_b_tree_page_number = be_uint (header_bytes file 52 4),
            database_text_encoding = be_uint (header_bytes file 56 4),
            user_version = be_uint (header_bytes file 60 4),
            incremental_vacuum_mode = be_uint (header_bytes file 64 4),
            application_ID = be_uint (header_bytes file 68 4),
            reserved_for_expansion = header_bytes file 72 20,
            version_valid_for_number = be_uint (header_bytes file 92 4),
            sqlite_version_number = be_uint (header_bytes file 96 4)\<rparr>"
proof -
  define b where "b = getBufferFromOffset file 100 0"
  have len: "length b = 100" by (simp add: b_def length_getBufferFromOffset)
  have one: "unat (b ! k) = be_uint (header_bytes file k 1)" if "k < 100" for k
  proof -
    from that len have A: "take 1 (drop k b) = [b ! k]"
      by (simp add: take_Suc_conv_app_nth Cons_nth_drop_Suc [symmetric] take_Suc hd_drop_conv_nth)
    from that have B: "take 1 (drop k b) = header_bytes file k 1"
      unfolding b_def by (intro header_bytes_of_buffer) simp
    have "header_bytes file k 1 = [b ! k]"
      by (rule trans [OF B [symmetric] A])
    then show ?thesis by (simp add: be_uint_def)
  qed
  have many: "take n (drop k b) = header_bytes file k n" if "k + n \<le> 100" for k n
    unfolding b_def using that by (rule header_bytes_of_buffer)
  have first: "take 16 b = header_bytes file 0 16"
    unfolding b_def by (rule header_bytes_of_buffer_0) simp
  have last: "drop 96 b = header_bytes file 96 4"
    using many [of 96 4] len by simp
  have idem: "take n (header_bytes file k n) = header_bytes file k n" for k n
    by (simp add: header_bytes_def)
  show ?thesis
    unfolding parseDatabaseFileHeader_def maxByteSize_def Let_def b_def [symmetric]
    by (simp add: getUint8_def getUint16_def getUint32_def andThen_def len one many first last idem
        slice_def)
qed

lemma header_bytes_beyond:
  "length file \<le> offset \<Longrightarrow> offset + n \<le> 100 \<Longrightarrow> header_bytes file offset n = replicate n 0"
  by (simp add: header_bytes_def)

lemma header_bytes_inside:
  "offset + n \<le> length file \<Longrightarrow> offset + n \<le> 100 \<Longrightarrow> header_bytes file offset n = take n (drop offset file)"
  by (simp add: header_bytes_def)

lemma be_uint_zeros: "be_uint (replicate n 0) = 0"
  by (simp add: be_uint_def be_uint_shift)

text \<open>
  \<^verbatim>\<open>parsePageHeader\<close> never fails, since its buffer always has 12 bytes. The header
  size it derives depends on the byte at 0 only through the leaf-table type and
  otherwise on the byte at 8; the start of the cell content area is the 16-bit number
  stored at 5, so it is never 65536.
\<close>

lemma parsePageHeader_returns:
  "\<exists>header. parsePageHeader file offset = Inr header
     \<and> headerSize header
         = (if getBufferFromOffset file 12 offset ! 0 = 13
               \<or> sint (getBufferFromOffset file 12 offset ! 8) = 10 then 8 else 12)
     \<and> start_of_cell_content_area header
         = 256 * unat (getBufferFromOffset file 12 offset ! 5)
           + unat (getBufferFromOffset file 12 offset ! 6)
     \<and> start_of_cell_content_area header < 65536"
proof -
  define b where "b = getBufferFromOffset file 12 offset"
  have len: "length b = 12" by (simp add: b_def length_getBufferFromOffset)
  have u16: "be_uint (take 2 (drop 5 b)) = 256 * unat (b ! 5) + unat (b ! 6)"
  proof -
    from len have "take 2 (drop 5 b) = [b ! 5, b ! 6]"
      by (auto simp add: list_eq_iff_nth_eq nth_Cons less_Suc_eq_0_disj numeral_2_eq_2)
    then show ?thesis by (simp add: be_uint_def)
  qed
  have bound: "256 * unat (b ! 5) + unat (b ! 6) < 65536"
  proof -
    have "unat (b ! 5) < 256" "unat (b ! 6) < 256"
      using unsigned_less [of "b ! 5", where 'a = nat] unsigned_less [of "b ! 6", where 'a = nat]
      by simp_all
    then show ?thesis by simp
  qed
  have t13: "unat (b ! 0) = 13 \<longleftrightarrow> b ! 0 = 13"
    by (simp add: word_unat_eq_iff)
  show ?thesis
    unfolding b_def [symmetric]
    using len u16 bound t13
    by (simp add: parsePageHeader_def Let_def b_def [symmetric] getUint8_def getInt8_def getUint16_def
        getUint32_def andThen_def leaf_table_b_tree_page_def leaf_index_b_tree_page_def)
qed

text \<open>
  Claim C3, at the inputs where it fails. For the header size, \<^verbatim>\<open>parsePageHeader\<close>
  compares the byte at 0 with the leaf-table type, but then the signed byte at 8, not
  the byte at 0, with the leaf-index type. A leaf-index page (type 10) whose byte 8 is
  not 10 gets the header size 12 instead of 8, and an interior-table page (type 5)
  whose byte 8 is 10 gets the header size 8 instead of 12.
\<close>

theorem parsePageHeader_leaf_index_headerSize:
  "parsePageHeader leaf_index_page_db 100
     = Inr \<lparr>number_of_tables = 1, b_tree_page_type = 10, start_of_first_freeBlock = 0,
            number_of_cells = 1, start_of_cell_content_area = 4080,
            number_of_fragmented_free_bytes = 0, right_most_pointer = 267386879,
            headerSize = 12\<rparr>
   \<and> parsePageHeader interior_table_page_db 100
     = Inr \<lparr>number_of_tables = 0, b_tree_page_type = 5, start_of_first_freeBlock = 0,
            number_of_cells = 0, start_of_cell_content_area = 4096,
            number_of_fragmented_free_bytes = 0, right_most_pointer = 167772161,
            headerSize = 8\<rparr>"
  by (simp add: parsePageHeader_def leaf_index_page_db_def interior_table_page_db_def
      getBufferFromOffset_def length_sqlite_header getters leaf_table_b_tree_page_def
      leaf_index_b_tree_page_def)

text \<open>
  Claim C7, at an input where it fails. The root page of an empty database with pages
  of 65536 bytes stores 0 as the start of its cell content area, and
  \<^verbatim>\<open>parsePageHeader\<close> reports the stored 0, not 65536.
\<close>

theorem parsePageHeader_content_area_zero:
  "parsePageHeader empty_64k_db 100
     = Inr \<lparr>number_of_tables = 0, b_tree_page_type = 13, start_of_first_freeBlock = 0,
            number_of_cells = 0, start_of_cell_content_area = 0,
            number_of_fragmented_free_bytes = 0, right_most_pointer = - 1,
            headerSize = 8\<rparr>"
  by (simp add: parsePageHeader_def empty_64k_db_def getBufferFromOffset_def
      length_sqlite_header getters leaf_table_b_tree_page_def leaf_index_b_tree_page_def)

text \<open>
  Claim C8, as stated, fails: from a file of 18 bytes, the magic string and the page
  size, the header parser returns a header, with the page size 4096 and every later
  field zero.
\<close>

theorem parseDatabaseFileHeader_truncated:
  "parseDatabaseFileHeader truncated_header
     = Inr \<lparr>header_string = js ''SQLite format 3'' @ [0],
            database_page_size = 4096,
            file_format_write_version = 0,
            file_format_read_version = 0,
            reserved_space_at_end_of_each_page = 0,
            maximum_embedded_payload_fraction = 0,
            minimum_embedded_payload_fraction = 0,
            leaf_payload_fraction = 0,
            file_change_counter = 0,
            number_of_pages = 0,
            first_freeList_trunk_page = 0,
            total_freeList_pages = 0,
            schema_cookie = 0,
            schema_format_number = 0,
            default_page_cache_size = 0,
            largest_root_b_tree_page_number = 0,
            database_text_encoding = 0,
            user_version = 0,
            incremental_vacuum_mode = 0,
            application_ID = 0,
            reserved_for_expansion = replicate 20 0,
            version_valid_for_number = 0,
            sqlite_version_number = 0\<rparr>"
  by (simp add: parseDatabaseFileHeader_def maxByteSize_def getBufferFromOffset_def
      truncated_header_def sqlite_header_def getters slice_def fromCharCode_def js_def)

text \<open>
  Claim C8, amended: for every input, also one that provides fewer than 100 bytes,
  parsing the file header does not fail. It returns the header of the input filled up
  with zero bytes to 100 bytes: every field is the big-endian number (the magic string
  and the reserved region: the bytes) at its place in the padded input, so every field
  whose place lies beyond the end of the input is zero.
\<close>

theorem parseDatabaseFileHeader_zero_padded:
  "\<exists>header.
     parseDatabaseFileHeader file = Inr header
     \<and> parseDatabaseFileHeader (file @ replicate (100 - length file) 0) = Inr header
     \<and> header
         = \<lparr>header_string = fromCharCode (header_bytes file 0 16),
              database_page_size = be_uint (header_bytes file 16 2),
              file_format_write_version = be_uint (header_bytes file 18 1),
              file_format_read_version = be_uint (header_bytes file 19 1),
              reserved_space_at_end_of_each_page = be_uint (header_bytes file 20 1),
              maximum_embedded_payload_fraction = be_uint (header_bytes file 21 1),
              minimum_embedded_payload_fraction = be_uint (header_bytes file 22 1),
              leaf_payload_fraction = be_uint (header_bytes file 23 1),
              file_change_counter = be_uint (header_bytes file 24 4),
              number_of_pages = be_uint (header_bytes file 28 4),
              first_freeList_trunk_page = be_uint (header_bytes file 32 4),
              total_freeList_pages = be_uint (header_bytes file 36 4),
              schema_cookie = be_uint (header_bytes file 40 4),
              schema_format_number = be_uint (header_bytes file 44 4),
              default_page_cache_size = be_uint (header_bytes file 48 4),
              largest_root_b_tree_page_number = be_uint (header_bytes file 52 4),
              database_text_encoding = be_uint (header_bytes file 56 4),
              user_version = be_uint (header_bytes file 60 4),
              incremental_vacuum_mode = be_uint (header_bytes file 64 4),
              application_ID = be_uint (header_bytes file 68 4),
              reserved_for_expansion = header_bytes file 72 20,
              version_valid_for_number = be_uint (header_bytes file 92 4),
              sqlite_version_number = be_uint (header_bytes file 96 4)\<rparr>
     \<and> (length file = 0 \<longrightarrow> header_string header = replicate 16 0)
     \<and> (length file \<le> 16 \<longrightarrow> database_page_size header = 0)
     \<and> (length file \<le> 18 \<longrightarrow> file_format_write_version header = 0)
     \<and> (length file \<le> 19 \<longrightarrow> file_format_read_version header = 0)
     \<and> (length file \<le> 20 \<longrightarrow> reserved_space_at_end_of_each_page header = 0)
     \<and> (length file \<le> 21 \<longrightarrow> maximum_embedded_payload_fraction header = 0)
     \<and> (length file \<le> 22 \<longrightarrow> minimum_embedded_payload_fraction header = 0)
     \<and> (length file \<le> 23 \<longrightarrow> leaf_payload_fraction header = 0)
     \<and> (length file \<le> 24 \<longrightarrow> file_change_counter header = 0)
     \<and> (length file \<le> 28 \<longrightarrow> number_of_pages header = 0)
     \<and> (length file \<le> 32 \<longrightarrow> first_freeList_trunk_page header = 0)
     \<and> (length file \<le> 36 \<longrightarrow> total_freeList_pages header = 0)
     \<and> (length file \<le> 40 \<longrightarrow> schema_cookie header = 0)
     \<and> (length file \<le> 44 \<longrightarrow> schema_format_number header = 0)
     \<and> (length file \<le> 48 \<longrightarrow> default_page_cache_size header = 0)
     \<and> (length file \<le> 52 \<longrightarrow> largest_root_b_tree_page_number header = 0)
     \<and> (length file \<le> 56 \<longrightarrow> database_text_encoding header = 0)
     \<and> (length file \<le> 60 \<longrightarrow> user_version header = 0)
     \<and> (length file \<le> 64 \<longrightarrow> incremental_vacuum_mode header = 0)
     \<and> (length file \<le> 68 \<longrightarrow> application_ID header = 0)
     \<and> (length file \<le> 72 \<longrightarrow> reserved_for_expansion header = replicate 20 0)
     \<and> (length file \<le> 92 \<longrightarrow> version_valid_for_number header = 0)
     \<and> (length file \<le> 96 \<longrightarrow> sqlite_version_number header = 0)"
proof -
  have padded: "parseDatabaseFileHeader (file @ replicate (100 - length file) 0)
                  = parseDatabaseFileHeader file"
    by (simp only: parseDatabaseFileHeader_def maxByteSize_def getBufferFromOffset_pad)
  have zero: "be_uint (header_bytes file offset n) = 0"
    if "length file \<le> offset" "offset + n \<le> 100" for offset n
    using that by (simp add: header_bytes_beyond be_uint_zeros)
  have reserved: "header_bytes file 72 20 = replicate 20 0" if "length file \<le> 72"
    using that by (simp add: header_bytes_beyond)
  have magic: "fromCharCode (header_bytes [] 0 16) = replicate 16 0"
    by (simp add: header_bytes_beyond fromCharCode_def)
  show ?thesis
    unfolding padded
    by (rule exI, intro conjI, rule parseDatabaseFileHeader_eq, rule parseDatabaseFileHeader_eq, rule refl)
       (simp_all add: zero reserved magic)
qed

lemma length_truncated_header: "length truncated_header = 18"
  by (simp add: truncated_header_def length_sqlite_header)

theorem parseDatabaseFileHeader_zero_padded_witness:
  "length truncated_header \<le> 18
   \<and> (\<exists>header. parseDatabaseFileHeader truncated_header = Inr header
         \<and> database_page_size header = 4096
         \<and> file_format_write_version header = 0
         \<and> file_change_counter header = 0
         \<and> number_of_pages header = 0
         \<and> reserved_for_expansion header = replicate 20 0
         \<and> sqlite_version_number header = 0)"
proof -
  have size: "be_uint (header_bytes truncated_header 16 2) = 4096"
    by (simp add: header_bytes_def truncated_header_def sqlite_header_def be_uint_def)
  from parseDatabaseFileHeader_zero_padded [of truncated_header] size show ?thesis
    by (auto simp add: length_truncated_header)
qed

section \<open>Properties of the table names\<close>

text \<open>
  The list of names so far is only ever extended at its end, so the names of a list of
  cell pointers are those of its first pointer followed by those of the rest.
\<close>

lemma tableNames_loop_acc:
  "tableNames_loop rt pageBuffer pointers names
     = (case tableNames_loop rt pageBuffer pointers [] of
          None \<Rightarrow> None
        | Some (Inl e) \<Rightarrow> Some (Inl e)
        | Some (Inr found) \<Rightarrow> Some (Inr (names @ found)))"
proof (induction pointers arbitrary: names)
  case Nil
  show ?case by simp
next
  case (Cons cellPointer rest)
  show ?case
  proof (cases "parseTableLeafCell rt (subarray_from pageBuffer (int cellPointer))")
    case None
    then show ?thesis by simp
  next
    case (Some outcome)
    show ?thesis
    proof (cases outcome)
      case (Inl e)
      with Some show ?thesis by simp
    next
      case (Inr columns)
      define name where "name = element_at columns (PageCellData_index schemaTableName)"
      have step: "tableNames_loop rt pageBuffer (cellPointer # rest) acc
                    = tableNames_loop rt pageBuffer rest (acc @ [name])" for acc
        using Some Inr by (simp add: name_def)
      show ?thesis
        unfolding step
        by (subst Cons.IH [of "names @ [name]"], subst Cons.IH [of "[] @ [name]"])
           (simp split: option.splits sum.splits)
    qed
  qed
qed

lemma getTableNames_Cons:
  "getTableNames rt pageBuffer (cellPointer # rest)
     = (case parseTableLeafCell rt (subarray_from pageBuffer (int cellPointer)) of
          None \<Rightarrow> None
        | Some (Inl e) \<Rightarrow> Some (Inl e)
        | Some (Inr columns) \<Rightarrow>
            (case getTableNames rt pageBuffer rest of
               None \<Rightarrow> None
             | Some (Inl e) \<Rightarrow> Some (Inl e)
             | Some (Inr names) \<Rightarrow> Some (Inr (element_at columns 2 # names))))"
  unfolding getTableNames_def
  by (simp add: tableNames_loop_acc [of _ _ _ "[_]"] split: option.splits sum.splits)

lemma getTableNames_Nil: "getTableNames rt pageBuffer [] = Some (Inr [])"
  by (simp add: getTableNames_def)

lemma getTableNames_append:
  "getTableNames rt pageBuffer earlier = Some (Inr names1) \<Longrightarrow>
   getTableNames rt pageBuffer later = Some (Inr names2) \<Longrightarrow>
   getTableNames rt pageBuffer (earlier @ later) = Some (Inr (names1 @ names2))"
proof (induction earlier arbitrary: names1)
  case Nil
  then show ?case by (simp add: getTableNames_Nil)
next
  case (Cons cellPointer rest)
  from Cons.prems(1) obtain columns names where
    cell: "parseTableLeafCell rt (subarray_from pageBuffer (int cellPointer)) = Some (Inr columns)"
    and rest: "getTableNames rt pageBuffer rest = Some (Inr names)"
    and names1: "names1 = element_at columns 2 # names"
    by (auto simp add: getTableNames_Cons split: option.splits sum.splits)
  from Cons.IH [OF rest Cons.prems(2)] cell names1 show ?case
    by (simp add: getTableNames_Cons)
qed

lemma subarray_from_beyond:
  "length buffer \<le> start \<Longrightarrow> subarray_from buffer (int start) = []"
  by (simp add: subarray_from_def relative_index_def)

text \<open>The files as \<^verbatim>\<open>parse\<close> reads them: header, page header, cell pointers, page, cells.\<close>

lemma length_db:
  "length single_column_db = 4096" "length schema_db = 4096" "length stray_pointer_db = 512"
  by (simp_all add: single_column_db_def schema_db_def stray_pointer_db_def length_sqlite_header
      schema_cell_t1_def schema_cell_t2_def)

lemma db_header:
  "\<exists>header. parseDatabaseFileHeader single_column_db = Inr header
     \<and> database_page_size header = 4096 \<and> number_of_pages header = 1"
  "\<exists>header. parseDatabaseFileHeader schema_db = Inr header
     \<and> database_page_size header = 4096 \<and> number_of_pages header = 1"
  "\<exists>header. parseDatabaseFileHeader stray_pointer_db = Inr header
     \<and> database_page_size header = 512 \<and> number_of_pages header = 1"
  using header_fields [of "0x10" "0x00"] header_fields [of "0x02" "0x00"]
  by (simp_all add: single_column_db_def schema_db_def stray_pointer_db_def)

lemma db_page_header:
  "parsePageHeader single_column_db 100
     = Inr \<lparr>number_of_tables = 2, b_tree_page_type = 13, start_of_first_freeBlock = 0,
            number_of_cells = 2, start_of_cell_content_area = 4084,
            number_of_fragmented_free_bytes = 0, right_most_pointer = 268046323,
            headerSize = 8\<rparr>"
  "parsePageHeader schema_db 100
     = Inr \<lparr>number_of_tables = 2, b_tree_page_type = 13, start_of_first_freeBlock = 0,
            number_of_cells = 2, start_of_cell_content_area = 4024,
            number_of_fragmented_free_bytes = 0, right_most_pointer = 266080183,
            headerSize = 8\<rparr>"
  "parsePageHeader stray_pointer_db 100
     = Inr \<lparr>number_of_tables = 1, b_tree_page_type = 13, start_of_first_freeBlock = 0,
            number_of_cells = 1, start_of_cell_content_area = 496,
            number_of_fragmented_free_bytes = 0, right_most_pointer = 50331647,
            headerSize = 8\<rparr>"
  by (simp_all add: parsePageHeader_def single_column_db_def schema_db_def stray_pointer_db_def
      getBufferFromOffset_def length_sqlite_header getters be_uint_shift
      leaf_table_b_tree_page_def leaf_index_b_tree_page_def)

lemma db_pointer_buffer:
  "getBufferFromOffset single_column_db 4 108 = [0x0f, 0xfa, 0x0f, 0xf4]"
  "getBufferFromOffset schema_db 4 108 = [0x0f, 0xdc, 0x0f, 0xb8]"
  "getBufferFromOffset stray_pointer_db 2 108 = [0x03, 0x00]"
  by (simp_all add: single_column_db_def schema_db_def stray_pointer_db_def
      getBufferFromOffset_def length_sqlite_header)

lemma db_pointers:
  "getCellPointerArray single_column_db 100 = Inr [4090, 4084]"
  "getCellPointerArray schema_db 100 = Inr [4060, 4024]"
  "getCellPointerArray stray_pointer_db 100 = Inr [768]"
  by (simp_all add: getCellPointerArray_def db_page_header andThen_def db_pointer_buffer
      cellPointer_loop.simps getUint16_def be_uint_def)

lemma db_page:
  "getBufferFromOffset single_column_db 4096 0 = single_column_db"
  "getBufferFromOffset schema_db 4096 0 = schema_db"
  "getBufferFromOffset stray_pointer_db 512 0 = stray_pointer_db"
  by (simp_all add: getBufferFromOffset_def length_db)

lemma db_cells:
  "subarray_from single_column_db 4090 = [0x04, 0x01, 0x02, 0x11, 0x74, 0x31]"
  "subarray_from single_column_db 4084
     = [0x04, 0x02, 0x02, 0x11, 0x74, 0x32, 0x04, 0x01, 0x02, 0x11, 0x74, 0x31]"
  "subarray_from schema_db 4060 = schema_cell_t1"
  "subarray_from schema_db 4024 = schema_cell_t2 @ schema_cell_t1"
  by (simp_all add: single_column_db_def schema_db_def length_sqlite_header subarray_from_def
      relative_index_def schema_cell_t2_def)

lemma parse_single_column:
  "parse rt single_column_db
     = Some (Inr \<lparr>pageSize = 4096, pageCount = 1, numberOfTables = 2, tableNames = [None, None]\<rparr>)"
proof -
  from db_header(1) obtain header where
    h: "parseDatabaseFileHeader single_column_db = Inr header"
      "database_page_size header = 4096" "number_of_pages header = 1"
    by blast
  have "getTableNames rt single_column_db [4090, 4084] = Some (Inr [None, None])"
    by (simp add: getTableNames_Cons getTableNames_Nil db_cells parseTableLeafCell_single_column
        element_at_def)
  then show ?thesis
    by (simp add: parse_def h maxByteSize_def db_page_header db_pointers db_page)
qed

lemma getTableNames_schema:
  "getTableNames rt schema_db [4060] = Some (Inr [Some (toString_utf8 rt [0x74, 0x31])])"
  "getTableNames rt schema_db [4024] = Some (Inr [Some (toString_utf8 rt [0x74, 0x32])])"
  "getTableNames rt schema_db [4060, 4024]
     = Some (Inr [Some (toString_utf8 rt [0x74, 0x31]), Some (toString_utf8 rt [0x74, 0x32])])"
  by (simp_all add: getTableNames_Cons getTableNames_Nil db_cells parseTableLeafCell_schema
      element_at_def)

section \<open>Cells whose varints take a single byte\<close>

text \<open>
  A byte with its high bit clear is a whole varint, and its value is the byte. So the
  header loop collects one serial type from each byte of such a record header, and the
  value loop finds each column where the file has it.
\<close>

lemma readVarint_single_byte:
  assumes "b < 0x80"
  shows "readVarint (b # rest) = \<lparr>value = uint b, nextOffset = 1\<rparr>"
proof -
  from assms have "b < 2 ^ 7" by simp
  then have "b AND mask 7 = b" by (rule less_mask_eq)
  then have m: "b AND 0x7f = b" by (simp add: mask_eq_exp_minus_1)
  have small: "uint b < 2 ^ 8" and pos: "0 \<le> uint b"
    using uint_bounded [of b] uint_nonnegative [of b] by simp_all
  have "signed_take_bit 31 (uint b) = uint b"
  proof (rule signed_take_bit_int_eq_self)
    have "(- (2 ^ 31) :: int) \<le> 0" by simp
    also note pos
    finally show "- (2 ^ 31) \<le> uint b" .
    note small
    also have "(2 ^ 8 :: int) \<le> 2 ^ 31" by simp
    finally show "uint b < 2 ^ 31" .
  qed
  then have s: "sint (ucast b :: 32 word) = uint b"
    by (simp add: signed_ucast_eq)
  from assms m s show ?thesis
    by (simp add: readVarint_def readVarint_loop.simps [of "b # rest" 0 0 0])
qed

lemma subarray_from_nat: "subarray_from buffer (int k) = drop k buffer"
  by (simp add: subarray_from_def relative_index_def)

lemma drop_Suc_of_Cons: "drop k xs = y # ys \<Longrightarrow> drop (Suc k) xs = ys"
  by (metis drop_Suc tl_drop list.sel(3))

lemma serialTypes_loop_single_bytes:
  "list_all (\<lambda>t. t < 0x80) types \<Longrightarrow> drop k buffer = types @ rest \<Longrightarrow>
   serialTypes_loop buffer (int k) (int (length types)) collected
     = Some (collected @ map uint types, int (k + length types))"
proof (induction types arbitrary: k collected)
  case Nil
  show ?case by (simp add: serialTypes_loop.simps [of buffer "int k" 0 collected])
next
  case (Cons t types)
  from Cons.prems have t: "t < 0x80" and ts: "list_all (\<lambda>t. t < 0x80) types" by simp_all
  from Cons.prems(2) have here: "drop k buffer = t # (types @ rest)" by simp
  then have next_: "drop (Suc k) buffer = types @ rest" by (rule drop_Suc_of_Cons)
  have v: "readVarint (subarray_from buffer (int k)) = \<lparr>value = uint t, nextOffset = 1\<rparr>"
    by (simp add: subarray_from_nat here readVarint_single_byte [OF t])
  have "serialTypes_loop buffer (int k) (int (length (t # types))) collected
          = serialTypes_loop buffer (int (Suc k)) (int (length types)) (collected @ [uint t])"
    by (subst serialTypes_loop.simps) (simp add: v Let_def add.commute)
  also have "\<dots> = Some ((collected @ [uint t]) @ map uint types, int (Suc k + length types))"
    by (rule Cons.IH [OF ts next_])
  finally show ?case by simp
qed

lemma subarray_column:
  assumes "drop k buffer = column @ rest"
  shows "subarray buffer (int k) (int k + int (length column)) = column"
proof (cases "column = []")
  case True
  then show ?thesis by (simp add: subarray_def relative_index_def Let_def)
next
  case False
  from assms have "length (drop k buffer) = length column + length rest" by simp
  then have "length buffer - k = length column + length rest" by simp
  moreover from False have "0 < length column" by simp
  ultimately have inside: "k + length column \<le> length buffer" "k < length buffer" by arith+
  then have s: "relative_index (int k) (length buffer) = k"
    by (simp add: relative_index_def)
  from inside have e: "relative_index (int k + int (length column)) (length buffer) = k + length column"
    by (simp add: relative_index_def nat_add_distrib)
  from assms have "take (length column) (drop k buffer) = column" by simp
  with False show ?thesis
    by (simp add: subarray_def s e)
qed

lemma parseSerialTypeValue_sized:
  assumes "int (length column) = getSerialTypeSize t"
  shows "\<exists>v. parseSerialTypeValue rt column t rowId = Inr v"
proof -
  have fixed: "length column = n"
    if "getSerialTypeSize t = int n" for n
    using assms that by simp
  consider "t = 1" | "t = 2" | "t = 3" | "t = 4" | "t = 5" | "t = 6" | "t = 7"
    | "t \<noteq> 1 \<and> t \<noteq> 2 \<and> t \<noteq> 3 \<and> t \<noteq> 4 \<and> t \<noteq> 5 \<and> t \<noteq> 6 \<and> t \<noteq> 7"
    by blast
  then show ?thesis
  proof cases
    case 1
    with fixed [of 1] show ?thesis
      by (simp add: parseSerialTypeValue_def getSerialTypeSize_def readIntBE_def andThen_def)
  next
    case 2
    with fixed [of 2] show ?thesis
      by (simp add: parseSerialTypeValue_def getSerialTypeSize_def readIntBE_def andThen_def)
  next
    case 3
    with fixed [of 3] show ?thesis
      by (simp add: parseSerialTypeValue_def getSerialTypeSize_def readIntBE_def andThen_def)
  next
    case 4
    with fixed [of 4] show ?thesis
      by (simp add: parseSerialTypeValue_def getSerialTypeSize_def readIntBE_def andThen_def)
  next
    case 5
    with fixed [of 6] show ?thesis
      by (simp add: parseSerialTypeValue_def getSerialTypeSize_def readIntBE_def andThen_def)
  next
    case 6
    with fixed [of 8] show ?thesis
      by (simp add: parseSerialTypeValue_def getSerialTypeSize_def readIntBE_def andThen_def)
  next
    case 7
    with fixed [of 8] show ?thesis
      by (simp add: parseSerialTypeValue_def getSerialTypeSize_def readDoubleBE_def andThen_def)
  next
    case 8
    then show ?thesis
      by (simp add: parseSerialTypeValue_def)
  qed
qed

lemma values_loop_columns:
  "list_all2 (\<lambda>t column. int (length column) = getSerialTypeSize t) types columns \<Longrightarrow>
   drop k buffer = concat columns @ rest \<Longrightarrow>
   \<exists>vals. values_loop rt buffer (int k) rowId types data = Inr (data @ vals)
     \<and> length vals = length types
     \<and> (\<forall>i < length types. parseSerialTypeValue rt (columns ! i) (types ! i) rowId = Inr (vals ! i))"
proof (induction types columns arbitrary: k data rule: list_all2_induct)
  case Nil
  then show ?case by simp
next
  case (Cons t types column columns)
  from Cons.prems have here: "drop k buffer = column @ (concat columns @ rest)" by simp
  then have next_: "drop (k + length column) buffer = concat columns @ rest"
    by (metis add.commute append_eq_conv_conj drop_drop)
  from parseSerialTypeValue_sized [OF Cons.hyps(1)] obtain v where
    v: "parseSerialTypeValue rt column t rowId = Inr v" by blast
  from Cons.IH [OF next_, of "data @ [v]"] obtain vals where
    rec: "values_loop rt buffer (int (k + length column)) rowId types (data @ [v])
            = Inr ((data @ [v]) @ vals)"
    and len: "length vals = length types"
    and each: "\<forall>i < length types. parseSerialTypeValue rt (columns ! i) (types ! i) rowId = Inr (vals ! i)"
    by blast
  have size: "getSerialTypeSize t = int (length column)" using Cons.hyps(1) by simp
  have "values_loop rt buffer (int k) rowId (t # types) data = Inr (data @ (v # vals))"
    using rec v by (simp add: size subarray_column [OF here] add.commute)
  moreover have "\<forall>i < length (t # types).
        parseSerialTypeValue rt ((column # columns) ! i) ((t # types) ! i) rowId = Inr ((v # vals) ! i)"
    using v each by (auto simp add: nth_Cons split: nat.splits)
  ultimately show ?case using len by (intro exI [of _ "v # vals"]) simp
qed


lemma parseTableLeafCell_schema_cell:
  assumes "schema_cell payloadSize rowId serialTypes columns name"
  shows "\<exists>vals. parseTableLeafCell rt (table_leaf_cell payloadSize rowId serialTypes columns @ rest)
                  = Some (Inr vals)
           \<and> length vals = length serialTypes
           \<and> element_at vals 2 = Some (toString_utf8 rt name)"
proof -
  define hs :: byte where "hs = of_nat (length serialTypes + 1)"
  define buffer where "buffer = table_leaf_cell payloadSize rowId serialTypes columns @ rest"
  from assms have ps: "payloadSize < 0x80" and rid: "rowId < 0x80"
    and n: "length serialTypes < 127" and small: "list_all (\<lambda>t. t < 0x80) serialTypes"
    and fit: "list_all2 (\<lambda>t column. int (length column) = getSerialTypeSize (uint t)) serialTypes columns"
    and three: "2 < length serialTypes" and is_text: "13 \<le> serialTypes ! 2" "odd (uint (serialTypes ! 2))"
    and name: "columns ! 2 = name"
    by (simp_all add: schema_cell_def)
  have buffer: "buffer = payloadSize # rowId # hs # serialTypes @ concat columns @ rest"
    by (simp add: buffer_def table_leaf_cell_def hs_def)
  have "unat hs = (length serialTypes + 1) mod 2 ^ LENGTH(8)"
    unfolding hs_def by (rule unat_of_nat)
  also from n have "\<dots> = length serialTypes + 1"
    by simp
  finally have uhs: "unat hs = length serialTypes + 1" .
  then have ihs: "uint hs = int (length serialTypes) + 1"
    by (simp add: uint_nat)
  from n uhs have hs: "hs < 0x80"
    by (simp add: word_less_nat_alt)
  have v0: "readVarint (subarray_from buffer 0) = \<lparr>value = uint payloadSize, nextOffset = 1\<rparr>"
    using subarray_from_nat [of buffer 0] by (simp add: buffer readVarint_single_byte [OF ps])
  have v1: "readVarint (subarray_from buffer 1) = \<lparr>value = uint rowId, nextOffset = 1\<rparr>"
    using subarray_from_nat [of buffer 1] by (simp add: buffer readVarint_single_byte [OF rid])
  have v2: "readVarint (subarray_from buffer 2) = \<lparr>value = uint hs, nextOffset = 1\<rparr>"
    using subarray_from_nat [of buffer 2] by (simp add: buffer readVarint_single_byte [OF hs])
  have d3: "drop 3 buffer = serialTypes @ (concat columns @ rest)"
    by (simp add: buffer)
  have types: "serialTypes_loop buffer 3 (int (length serialTypes)) []
                 = Some (map uint serialTypes, int (3 + length serialTypes))"
    using serialTypes_loop_single_bytes [OF small d3, of "[]"] by simp
  have "drop (length serialTypes + 3) buffer = drop (length serialTypes) (drop 3 buffer)"
    by simp
  then have d4: "drop (3 + length serialTypes) buffer = concat columns @ rest"
    by (simp add: d3 add.commute)
  from fit have fit': "list_all2 (\<lambda>t column. int (length column) = getSerialTypeSize t)
                         (map uint serialTypes) columns"
    by (simp add: list_all2_map1)
  from values_loop_columns [OF fit' d4, of rt "uint rowId" "[]"] obtain vals where
    vals: "values_loop rt buffer (int (3 + length serialTypes)) (uint rowId) (map uint serialTypes) []
             = Inr vals"
    and len: "length vals = length serialTypes"
    and each: "\<forall>i < length serialTypes.
        parseSerialTypeValue rt (columns ! i) (map uint serialTypes ! i) (uint rowId) = Inr (vals ! i)"
    by auto
  have cell: "parseTableLeafCell rt buffer = Some (Inr vals)"
    using types vals by (simp add: parseTableLeafCell_def parseCellPayload_def v0 v1 v2 ihs)
  from is_text(1) have "13 \<le> uint (serialTypes ! 2)"
    by (simp add: word_le_def)
  moreover from is_text(2) have "uint (serialTypes ! 2) mod 2 = 1"
    by presburger
  ultimately have "parseSerialTypeValue rt (columns ! 2) (uint (serialTypes ! 2)) (uint rowId)
                     = Inr (toString_utf8 rt (columns ! 2))"
    by (simp add: parseSerialTypeValue_def)
  with each three name have "vals ! 2 = toString_utf8 rt name"
    by auto
  with len three have "element_at vals 2 = Some (toString_utf8 rt name)"
    by (simp add: element_at_def)
  with cell len show ?thesis
    unfolding buffer_def by blast
qed

text \<open>The parts of \<^verbatim>\<open>parse\<close> on a file of one page with two cells.\<close>

lemma getBufferFromOffset_inside:
  "offset + n \<le> length file \<Longrightarrow> getBufferFromOffset file n offset = take n (drop offset file)"
  by (simp add: getBufferFromOffset_def Let_def)

lemma one_page_header:
  assumes "one_page_two_cells file pointer1 pointer2"
  shows "\<exists>header. parseDatabaseFileHeader file = Inr header
           \<and> database_page_size header = 4096 \<and> number_of_pages header = 1"
proof -
  from assms have len: "length file = 4096"
    and size: "take 2 (drop 16 file) = [0x10, 0x00]"
    and count: "take 4 (drop 28 file) = [0x00, 0x00, 0x00, 0x01]"
    by (simp_all add: one_page_two_cells_def)
  from len size have "be_uint (header_bytes file 16 2) = 4096"
    by (simp add: header_bytes_inside be_uint_def)
  moreover from len count have "be_uint (header_bytes file 28 4) = 1"
    by (simp add: header_bytes_inside be_uint_def)
  ultimately show ?thesis
    by (simp add: parseDatabaseFileHeader_eq)
qed

lemma one_page_page_header:
  assumes "one_page_two_cells file pointer1 pointer2"
  shows "\<exists>header. parsePageHeader file 100 = Inr header
           \<and> number_of_tables header = 2 \<and> number_of_cells header = 2 \<and> headerSize header = 8"
proof -
  from assms have len: "length file = 4096"
    and leaf: "file ! 100 = 0x0d"
    and cells: "take 2 (drop 103 file) = [0x00, 0x02]"
    by (simp_all add: one_page_two_cells_def)
  define b where "b = take 12 (drop 100 file)"
  from len have buf: "getBufferFromOffset file 12 100 = b"
    by (simp add: getBufferFromOffset_inside b_def)
  from len have blen: "length b = 12" by (simp add: b_def)
  from len leaf have b0: "b ! 0 = 0x0d" by (simp add: b_def)
  from cells have b3: "take 2 (drop 3 b) = [0x00, 0x02]"
    by (simp add: b_def drop_take)
  show ?thesis
    by (simp add: parsePageHeader_def buf Let_def getUint8_def getInt8_def getUint16_def
        getUint32_def andThen_def blen b0 b3 be_uint_def leaf_table_b_tree_page_def)
qed

lemma one_page_pointers:
  assumes "one_page_two_cells file pointer1 pointer2"
  shows "getCellPointerArray file 100 = Inr [pointer1, pointer2]"
proof -
  from assms have len: "length file = 4096"
    and p1: "be_uint (take 2 (drop 108 file)) = pointer1"
    and p2: "be_uint (take 2 (drop 110 file)) = pointer2"
    by (simp_all add: one_page_two_cells_def)
  from one_page_page_header [OF assms] obtain header where
    h: "parsePageHeader file 100 = Inr header" "number_of_cells header = 2" "headerSize header = 8"
    by blast
  define pb where "pb = take 4 (drop 108 file)"
  from len have buf: "getBufferFromOffset file 4 108 = pb"
    by (simp add: getBufferFromOffset_inside pb_def)
  from len have plen: "length pb = 4" by (simp add: pb_def)
  have "take 2 pb = take 2 (drop 108 file)"
    by (simp add: pb_def)
  then have g0: "getUint16 pb 0 = Inr pointer1"
    using p1 by (simp add: getUint16_def plen)
  have "take 2 (drop 2 pb) = take 2 (drop 110 file)"
    by (simp add: pb_def drop_take)
  then have g1: "getUint16 pb 2 = Inr pointer2"
    using p2 by (simp add: getUint16_def plen)
  have "cellPointer_loop pb 2 0 [] = Inr [pointer1, pointer2]"
    by (simp add: cellPointer_loop.simps [of pb 2] plen g0 g1)
  then show ?thesis
    by (simp add: getCellPointerArray_def andThen_def h buf)
qed

lemma cell_at_drop:
  "cell_at file pointer cell \<Longrightarrow>
     subarray_from file (int pointer) = cell @ drop (pointer + length cell) file"
proof -
  assume "cell_at file pointer cell"
  then have "take (length cell) (drop pointer file) = cell"
    by (simp add: cell_at_def)
  then have "drop pointer file = cell @ drop (length cell) (drop pointer file)"
    by (metis append_take_drop_id)
  then show ?thesis
    by (simp add: subarray_from_nat add.commute)
qed

section \<open>The parser on whole files\<close>

text \<open>
  Claim C1, as stated, fails: for the file whose two cells each hold a single TEXT
  column, \<^verbatim>\<open>parse\<close> returns the page size 4096, the page count 1 and 2 tables, but
  the table names are \<^verbatim>\<open>[undefined, undefined]\<close>. The name is taken from the column
  with index 2 (\<^verbatim>\<open>PageCellData.schemaTableName\<close>), and a record of one column has
  none. (The result is the same for every runtime.)
\<close>

theorem parse_single_column_db:
  "parse ascii_runtime single_column_db
     = Some (Inr \<lparr>pageSize = 4096, pageCount = 1, numberOfTables = 2,
                  tableNames = [None, None]\<rparr>)"
  by (rule parse_single_column)

text \<open>
  Claim C1, amended: for every database file of one page of 4096 bytes whose 100-byte
  header declares page size 4096 and page count 1, and whose root page (its page header
  at offset 100) is a leaf-table b-tree page with 2 cells, each cell made of a payload
  size, a row id and a record whose varints all take a single byte, with columns of the
  sizes of their serial types, at least three of them, and the third column (index 2,
  the table name) the TEXT value \<^verbatim>\<open>t1\<close> respectively \<^verbatim>\<open>t2\<close>, \<^verbatim>\<open>parse\<close>
  returns exactly page size 4096, page count 1, 2 tables and the table names
  \<^verbatim>\<open>["t1", "t2"]\<close>. Of the runtime this needs only that its UTF-8 decoder turns
  the bytes of \<^verbatim>\<open>t1\<close> and \<^verbatim>\<open>t2\<close> into these strings.
\<close>

theorem parse_two_schema_cells:
  assumes "one_page_two_cells file pointer1 pointer2"
    and "cell_at file pointer1 (table_leaf_cell payloadSize1 rowId1 serialTypes1 columns1)"
    and "schema_cell payloadSize1 rowId1 serialTypes1 columns1 [0x74, 0x31]"
    and "cell_at file pointer2 (table_leaf_cell payloadSize2 rowId2 serialTypes2 columns2)"
    and "schema_cell payloadSize2 rowId2 serialTypes2 columns2 [0x74, 0x32]"
    and "toString_utf8 rt [0x74, 0x31] = js ''t1''"
    and "toString_utf8 rt [0x74, 0x32] = js ''t2''"
  shows "parse rt file
     = Some (Inr \<lparr>pageSize = 4096, pageCount = 1, numberOfTables = 2,
                  tableNames = [Some (js ''t1''), Some (js ''t2'')]\<rparr>)"
proof -
  from one_page_header [OF assms(1)] obtain header where
    h: "parseDatabaseFileHeader file = Inr header"
      "database_page_size header = 4096" "number_of_pages header = 1"
    by blast
  from one_page_page_header [OF assms(1)] obtain pageHeader where
    ph: "parsePageHeader file 100 = Inr pageHeader" "number_of_tables pageHeader = 2"
    by blast
  note pointers = one_page_pointers [OF assms(1)]
  from assms(1) have page: "getBufferFromOffset file 4096 0 = file"
    by (simp add: one_page_two_cells_def getBufferFromOffset_inside)
  from parseTableLeafCell_schema_cell [OF assms(3)] cell_at_drop [OF assms(2)]
  obtain vals1 where
    c1: "parseTableLeafCell rt (subarray_from file (int pointer1)) = Some (Inr vals1)"
      "element_at vals1 2 = Some (toString_utf8 rt [0x74, 0x31])"
    by metis
  from parseTableLeafCell_schema_cell [OF assms(5)] cell_at_drop [OF assms(4)]
  obtain vals2 where
    c2: "parseTableLeafCell rt (subarray_from file (int pointer2)) = Some (Inr vals2)"
      "element_at vals2 2 = Some (toString_utf8 rt [0x74, 0x32])"
    by metis
  have "getTableNames rt file [pointer1, pointer2] = Some (Inr [Some (js ''t1''), Some (js ''t2'')])"
    by (simp add: getTableNames_Cons getTableNames_Nil c1 c2 assms(6,7))
  then show ?thesis
    by (simp add: parse_def h ph maxByteSize_def pointers page)
qed

text \<open>The file \<open>schema_db\<close> is such a file, with its cells at 4060 and 4024.\<close>

lemma schema_cells_as_table_leaf_cells:
  "schema_cell_t1 = table_leaf_cell 0x22 0x01 schema_serialTypes schema_columns_t1"
  "schema_cell_t2 = table_leaf_cell 0x22 0x02 schema_serialTypes schema_columns_t2"
  by (simp_all add: schema_cell_t1_def schema_cell_t2_def table_leaf_cell_def
      schema_serialTypes_def schema_columns_t1_def schema_columns_t2_def)

lemma schema_db_one_page: "one_page_two_cells schema_db 4060 4024"
  by (simp add: one_page_two_cells_def schema_db_def length_sqlite_header schema_cell_t1_def
      schema_cell_t2_def nth_append be_uint_def)
     (simp add: sqlite_header_def)

lemma schema_db_cells:
  "cell_at schema_db 4060 schema_cell_t1" "cell_at schema_db 4024 schema_cell_t2"
  by (simp_all add: cell_at_def schema_db_def length_sqlite_header)
     (simp_all add: schema_cell_t1_def schema_cell_t2_def)

lemma schema_cells_well_formed:
  "schema_cell 0x22 0x01 schema_serialTypes schema_columns_t1 [0x74, 0x31]"
  "schema_cell 0x22 0x02 schema_serialTypes schema_columns_t2 [0x74, 0x32]"
  by (simp_all add: schema_cell_def getSerialTypeSize_def schema_serialTypes_def
      schema_columns_t1_def schema_columns_t2_def)

theorem parse_two_schema_cells_witness:
  "one_page_two_cells schema_db 4060 4024
   \<and> cell_at schema_db 4060 (table_leaf_cell 0x22 0x01 schema_serialTypes schema_columns_t1)
   \<and> schema_cell 0x22 0x01 schema_serialTypes schema_columns_t1 [0x74, 0x31]
   \<and> cell_at schema_db 4024 (table_leaf_cell 0x22 0x02 schema_serialTypes schema_columns_t2)
   \<and> schema_cell 0x22 0x02 schema_serialTypes schema_columns_t2 [0x74, 0x32]
   \<and> toString_utf8 ascii_runtime [0x74, 0x31] = js ''t1''
   \<and> toString_utf8 ascii_runtime [0x74, 0x32] = js ''t2''
   \<and> parse ascii_runtime schema_db
       = Some (Inr \<lparr>pageSize = 4096, pageCount = 1, numberOfTables = 2,
                    tableNames = [Some (js ''t1''), Some (js ''t2'')]\<rparr>)"
proof -
  note page = schema_db_one_page
  have cell1: "cell_at schema_db 4060 (table_leaf_cell 0x22 0x01 schema_serialTypes schema_columns_t1)"
    using schema_db_cells(1) by (simp add: schema_cells_as_table_leaf_cells)
  have cell2: "cell_at schema_db 4024 (table_leaf_cell 0x22 0x02 schema_serialTypes schema_columns_t2)"
    using schema_db_cells(2) by (simp add: schema_cells_as_table_leaf_cells)
  from parse_two_schema_cells [OF page cell1 schema_cells_well_formed(1) cell2
      schema_cells_well_formed(2) ascii_runtime_names]
    page cell1 cell2 schema_cells_well_formed ascii_runtime_names
  show ?thesis by blast
qed

text \<open>
  Claim C9, as stated, fails: for the page of 512 bytes whose only cell pointer is 768,
  \<^verbatim>\<open>parse\<close> does not fail. It returns a list of table names whose one element is
  \<^verbatim>\<open>undefined\<close>.
\<close>

theorem parse_stray_pointer_db:
  "parse ascii_runtime stray_pointer_db
     = Some (Inr \<lparr>pageSize = 512, pageCount = 1, numberOfTables = 1, tableNames = [None]\<rparr>)"
proof -
  from db_header(3) obtain header where
    h: "parseDatabaseFileHeader stray_pointer_db = Inr header"
      "database_page_size header = 512" "number_of_pages header = 1"
    by blast
  have "subarray_from stray_pointer_db 768 = []"
    using subarray_from_beyond [of stray_pointer_db 768] by (simp add: length_db)
  then have "getTableNames ascii_runtime stray_pointer_db [768] = Some (Inr [None])"
    by (simp add: getTableNames_Cons getTableNames_Nil parseTableLeafCell_empty element_at_def)
  then show ?thesis
    by (simp add: parse_def h maxByteSize_def db_page_header db_pointers db_page)
qed

text \<open>
  Claim C9, amended: a cell pointer whose offset is at or beyond the length of the page
  buffer does not make the parse fail. Its cell is read from an empty slice and decodes
  to a record without columns, so its table name is \<^verbatim>\<open>undefined\<close>; when the cell
  pointers before it give the names \<open>names1\<close> and those after it give the names
  \<open>names2\<close>, the list of table names is \<open>names1\<close>, then \<^verbatim>\<open>undefined\<close>, then
  \<open>names2\<close>: one entry for each cell pointer, none omitted.
\<close>

theorem getTableNames_pointer_beyond_page:
  assumes "length pageBuffer \<le> cellPointer"
    and "getTableNames rt pageBuffer earlier = Some (Inr names1)"
    and "getTableNames rt pageBuffer later = Some (Inr names2)"
  shows "parseTableLeafCell rt (subarray_from pageBuffer (int cellPointer)) = Some (Inr [])
   \<and> getTableNames rt pageBuffer (earlier @ cellPointer # later) = Some (Inr (names1 @ None # names2))"
proof
  show cell: "parseTableLeafCell rt (subarray_from pageBuffer (int cellPointer)) = Some (Inr [])"
    using assms(1) by (simp add: subarray_from_beyond parseTableLeafCell_empty)
  have "getTableNames rt pageBuffer (cellPointer # later) = Some (Inr (None # names2))"
    using cell assms(3) by (simp add: getTableNames_Cons element_at_def)
  with assms(2) show "getTableNames rt pageBuffer (earlier @ cellPointer # later)
                     = Some (Inr (names1 @ None # names2))"
    by (rule getTableNames_append)
qed

theorem getTableNames_pointer_beyond_page_witness:
  "length schema_db \<le> 5000
   \<and> getTableNames ascii_runtime schema_db [4060] = Some (Inr [Some (js ''t1'')])
   \<and> getTableNames ascii_runtime schema_db [4024] = Some (Inr [Some (js ''t2'')])
   \<and> parseTableLeafCell ascii_runtime (subarray_from schema_db (int 5000)) = Some (Inr [])
   \<and> getTableNames ascii_runtime schema_db ([4060] @ 5000 # [4024])
       = Some (Inr ([Some (js ''t1'')] @ None # [Some (js ''t2'')]))"
proof -
  have len: "length schema_db \<le> 5000"
    by (simp add: length_db)
  have first: "getTableNames ascii_runtime schema_db [4060] = Some (Inr [Some (js ''t1'')])"
    by (simp add: getTableNames_schema ascii_runtime_names)
  have second: "getTableNames ascii_runtime schema_db [4024] = Some (Inr [Some (js ''t2'')])"
    by (simp add: getTableNames_schema ascii_runtime_names)
  from getTableNames_pointer_beyond_page [OF len first second] len first second show ?thesis
    by blast
qed

end
